theory Spec2Isabelle
  imports Complex_Main "HOL-Library.Sublist"
begin

section \<open>Roommate assignment: the model builder and the decoder of roommateSolver.js\<close>

text \<open>
  The embedding follows \<^verbatim>\<open>solveRoommateAssignment(preferences, rooms, key)\<close> statement by
  statement. The three tables are lists of rows as the CSV reader hands them over: a row
  maps a column name to the text of its cell, and a column the row does not have reads
  as \<^verbatim>\<open>undefined\<close> (\<open>None\<close>).

  A string is the list of its UTF-16 code units, and the model covers the strings whose
  code units are all below 256 (ASCII and Latin-1): a \<open>char\<close> is such a code unit.

  A number is \<^verbatim>\<open>NaN\<close>, an infinity, or a finite number, and the model computes with
  finite numbers exactly. The code computes with doubles, which round, overflow and
  underflow. Both agree as long as every operand and every result is a whole number of
  magnitude at most \<open>2^53\<close>: this covers the indices, the counts, the 0/1 values of the
  variables and the ordinal codes of this program. The property of the compatibility
  cost, whose value depends on the arithmetic, is stated for such numbers only.
\<close>

subsection \<open>JavaScript values: cells, numbers, and the conversions between them\<close>

type_synonym row = "string \<rightharpoonup> string"

text \<open>Truthiness of a cell read by a fixed column name: \<^verbatim>\<open>undefined\<close> and the empty
  string are falsy, every other string is truthy.\<close>

definition truthy :: "string option \<Rightarrow> bool" where
  "truthy v = (case v of None \<Rightarrow> False | Some s \<Rightarrow> s \<noteq> [])"

text \<open>\<^verbatim>\<open>ToString\<close> of such a value, as used for a property key or by \<^verbatim>\<open>parseFloat\<close>.\<close>

definition to_string :: "string option \<Rightarrow> string" where
  "to_string v = (case v of None \<Rightarrow> ''undefined'' | Some s \<Rightarrow> s)"

text \<open>\<open>Infty True\<close> is \<^verbatim>\<open>+Infinity\<close>, \<open>Infty False\<close> is \<^verbatim>\<open>-Infinity\<close>.\<close>

datatype jsnum = NaN | Fin real | Infty bool

fun js_neg :: "jsnum \<Rightarrow> jsnum" where
  "js_neg NaN = NaN"
| "js_neg (Fin a) = Fin (- a)"
| "js_neg (Infty s) = Infty (\<not> s)"

fun js_abs :: "jsnum \<Rightarrow> jsnum" where
  "js_abs NaN = NaN"
| "js_abs (Fin a) = Fin \<bar>a\<bar>"
| "js_abs (Infty s) = Infty True"

fun js_add :: "jsnum \<Rightarrow> jsnum \<Rightarrow> jsnum" where
  "js_add (Fin a) (Fin b) = Fin (a + b)"
| "js_add (Fin a) (Infty s) = Infty s"
| "js_add (Infty s) (Fin b) = Infty s"
| "js_add (Infty s) (Infty t) = (if s = t then Infty s else NaN)"
| "js_add NaN y = NaN"
| "js_add x NaN = NaN"

definition js_sub :: "jsnum \<Rightarrow> jsnum \<Rightarrow> jsnum" where
  "js_sub x y = js_add x (js_neg y)"

fun js_mul :: "jsnum \<Rightarrow> jsnum \<Rightarrow> jsnum" where
  "js_mul (Fin a) (Fin b) = Fin (a * b)"
| "js_mul (Fin a) (Infty s) = (if a = 0 then NaN else Infty ((0 < a) = s))"
| "js_mul (Infty s) (Fin b) = (if b = 0 then NaN else Infty ((0 < b) = s))"
| "js_mul (Infty s) (Infty t) = Infty (s = t)"
| "js_mul NaN y = NaN"
| "js_mul x NaN = NaN"

text \<open>The comparison \<^verbatim>\<open>x <= y\<close>: false as soon as one side is \<^verbatim>\<open>NaN\<close>.\<close>

fun js_le :: "jsnum \<Rightarrow> jsnum \<Rightarrow> bool" where
  "js_le (Fin a) (Fin b) = (a \<le> b)"
| "js_le (Fin a) (Infty s) = s"
| "js_le (Infty s) (Fin b) = (\<not> s)"
| "js_le (Infty s) (Infty t) = (s \<le> t)"
| "js_le NaN y = False"
| "js_le x NaN = False"

subsubsection \<open>Decimal digits and the text of an index\<close>

definition is_digit :: "char \<Rightarrow> bool" where
  "is_digit c = (c \<in> set ''0123456789'')"

definition digit_val :: "char \<Rightarrow> nat" where
  "digit_val c = of_char c - 48"

definition digit_char :: "nat \<Rightarrow> char" where
  "digit_char d = ''0123456789'' ! d"

definition digits_val :: "string \<Rightarrow> nat" where
  "digits_val s = foldl (\<lambda>n c. 10 * n + digit_val c) 0 s"

text \<open>What a template literal \<^verbatim>\<open>${i}\<close> prints for a loop counter: its decimal digits.\<close>

fun show_nat :: "nat \<Rightarrow> string" where
  "show_nat n = (if n < 10 then [digit_char n] else show_nat (n div 10) @ [digit_char (n mod 10)])"

declare show_nat.simps [simp del]

subsubsection \<open>\<^verbatim>\<open>Number(s)\<close>, \<^verbatim>\<open>isNaN(s)\<close> and \<^verbatim>\<open>parseFloat(s)\<close> on strings\<close>

text \<open>The white space that the conversions skip: of the code units below 256 these are
  tab, line feed, vertical tab, form feed, carriage return, space and the no-break space
  (U+00A0).\<close>

definition is_space :: "char \<Rightarrow> bool" where
  "is_space c =
    (c \<in> set [CHR 0x09, CHR 0x0A, CHR 0x0B, CHR 0x0C, CHR 0x0D, CHR 0x20, CHR 0xA0])"

definition trim :: "string \<Rightarrow> string" where
  "trim s = rev (dropWhile is_space (rev (dropWhile is_space s)))"

definition pow10 :: "int \<Rightarrow> real" where
  "pow10 e = (if 0 \<le> e then 10 ^ nat e else 1 / 10 ^ nat (- e))"

text \<open>The optional exponent part \<^verbatim>\<open>e[+-]digits\<close> at the head of a string: its value and
  the rest. Without digits after the \<^verbatim>\<open>e\<close> nothing is consumed.\<close>

definition scan_exponent :: "string \<Rightarrow> int \<times> string" where
  "scan_exponent s =
    (case s of
       [] \<Rightarrow> (0, s)
     | c # t \<Rightarrow>
         if c = CHR ''e'' \<or> c = CHR ''E'' then
           (let neg = (t \<noteq> [] \<and> hd t = CHR ''-'');
                u = (if t \<noteq> [] \<and> (hd t = CHR ''-'' \<or> hd t = CHR ''+'') then tl t else t);
                ds = takeWhile is_digit u
            in if ds = [] then (0, s)
               else (if neg then - int (digits_val ds) else int (digits_val ds),
                     dropWhile is_digit u))
         else (0, s))"

text \<open>The longest prefix that is an unsigned decimal literal of the string-to-number
  grammar (\<^verbatim>\<open>Infinity\<close>, \<^verbatim>\<open>12\<close>, \<^verbatim>\<open>12.\<close>, \<^verbatim>\<open>12.5\<close>, \<^verbatim>\<open>.5\<close>, each with an optional
  exponent), with its value and the rest of the string.\<close>

definition scan_unsigned :: "string \<Rightarrow> (jsnum \<times> string) option" where
  "scan_unsigned s =
    (if take 8 s = ''Infinity'' then Some (Infty True, drop 8 s)
     else
       (let ip = takeWhile is_digit s; r1 = dropWhile is_digit s in
        if r1 \<noteq> [] \<and> hd r1 = CHR ''.'' \<and> (ip \<noteq> [] \<or> takeWhile is_digit (tl r1) \<noteq> []) then
          (let fp = takeWhile is_digit (tl r1);
               (e, r4) = scan_exponent (dropWhile is_digit (tl r1))
           in Some (Fin ((real (digits_val ip) + real (digits_val fp) / 10 ^ length fp) * pow10 e), r4))
        else if ip \<noteq> [] then
          (let (e, r4) = scan_exponent r1 in Some (Fin (real (digits_val ip) * pow10 e), r4))
        else None))"

definition scan_decimal :: "string \<Rightarrow> (jsnum \<times> string) option" where
  "scan_decimal s =
    (case s of
       [] \<Rightarrow> None
     | c # t \<Rightarrow>
         if c = CHR ''+'' then scan_unsigned t
         else if c = CHR ''-'' then map_option (\<lambda>(v, r). (js_neg v, r)) (scan_unsigned t)
         else scan_unsigned s)"

definition hex_digit_val :: "char \<Rightarrow> nat option" where
  "hex_digit_val c =
    (if is_digit c then Some (digit_val c)
     else if c \<in> set ''abcdef'' then Some (of_char c - 87)
     else if c \<in> set ''ABCDEF'' then Some (of_char c - 55)
     else None)"

definition radix_val :: "nat \<Rightarrow> string \<Rightarrow> nat option" where
  "radix_val b s =
    (if s \<noteq> [] \<and> list_all (\<lambda>c. case hex_digit_val c of Some d \<Rightarrow> d < b | None \<Rightarrow> False) s
     then Some (foldl (\<lambda>n c. b * n + (case hex_digit_val c of Some d \<Rightarrow> d | None \<Rightarrow> 0)) 0 s)
     else None)"

text \<open>The literals \<^verbatim>\<open>0x..\<close>, \<^verbatim>\<open>0o..\<close> and \<^verbatim>\<open>0b..\<close>, which take no sign.\<close>

definition non_decimal :: "string \<Rightarrow> nat option" where
  "non_decimal s =
    (case s of
       z # p # ds \<Rightarrow>
         if z \<noteq> CHR ''0'' then None
         else if p \<in> set ''xX'' then radix_val 16 ds
         else if p \<in> set ''oO'' then radix_val 8 ds
         else if p \<in> set ''bB'' then radix_val 2 ds
         else None
     | _ \<Rightarrow> None)"

text \<open>\<^verbatim>\<open>Number(s)\<close> for a string: white space is trimmed, the empty string is 0, a numeric
  literal over the whole string is its value, everything else is \<^verbatim>\<open>NaN\<close>.\<close>

definition string_to_number :: "string \<Rightarrow> jsnum" where
  "string_to_number s =
    (let t = trim s in
     if t = [] then Fin 0
     else case non_decimal t of
       Some n \<Rightarrow> Fin (real n)
     | None \<Rightarrow> (case scan_decimal t of Some (v, []) \<Rightarrow> v | _ \<Rightarrow> NaN))"

text \<open>\<^verbatim>\<open>parseFloat(s)\<close>: leading white space is skipped and the longest decimal prefix is
  read; without one the result is \<^verbatim>\<open>NaN\<close>.\<close>

definition parse_float :: "string \<Rightarrow> jsnum" where
  "parse_float s = (case scan_decimal (dropWhile is_space s) of Some (v, r) \<Rightarrow> v | None \<Rightarrow> NaN)"

text \<open>\<^verbatim>\<open>Number(v)\<close> for a cell read by a fixed column name.\<close>

definition to_number :: "string option \<Rightarrow> jsnum" where
  "to_number v = (case v of None \<Rightarrow> NaN | Some s \<Rightarrow> string_to_number s)"

subsubsection \<open>Property reads with an arbitrary name\<close>

text \<open>
  A row and a label table are plain objects, so a read \<^verbatim>\<open>obj[name]\<close> whose name is not a
  property of the object itself falls through to \<^verbatim>\<open>Object.prototype\<close>. The names below are
  its members; none of the fixed column names the solver reads (\<^verbatim>\<open>Category\<close>,
  \<^verbatim>\<open>Weighting\<close>, \<^verbatim>\<open>Name\<close>, \<^verbatim>\<open>Gender\<close>, \<^verbatim>\<open>Capacity\<close>, \<^verbatim>\<open>Room\<close>, \<^verbatim>\<open>1\<close> to \<^verbatim>\<open>4\<close>) is among
  them, which is why those reads are written \<open>k ''Category''\<close> directly. An assignment
  \<^verbatim>\<open>obj["__proto__"] = v\<close> of a string or a number stores nothing, so that name never is
  a property of the object itself.
\<close>

definition object_prototype_keys :: "string list" where
  "object_prototype_keys =
    [''constructor'', ''hasOwnProperty'', ''isPrototypeOf'', ''propertyIsEnumerable'',
     ''toLocaleString'', ''toString'', ''valueOf'', ''__proto__'',
     ''__defineGetter__'', ''__defineSetter__'', ''__lookupGetter__'', ''__lookupSetter__'']"

text \<open>The outcome of a read \<^verbatim>\<open>obj[name]\<close>: a property of the object itself,
  \<^verbatim>\<open>undefined\<close>, or the built-in member of that name (a function, or for \<^verbatim>\<open>__proto__\<close>
  the prototype object).\<close>

datatype 'a jsprop = Undefined | Own 'a | Inherited string

definition get_prop :: "(string \<rightharpoonup> 'a) \<Rightarrow> string \<Rightarrow> 'a jsprop" where
  "get_prop obj k =
    (if k = ''__proto__'' then Inherited k
     else case obj k of
       Some x \<Rightarrow> Own x
     | None \<Rightarrow> if k \<in> set object_prototype_keys then Inherited k else Undefined)"

text \<open>\<^verbatim>\<open>Number(val)\<close> for the outcome of \<^verbatim>\<open>p[cat]\<close>; a built-in member converts to
  \<^verbatim>\<open>NaN\<close>.\<close>

fun val_to_number :: "string jsprop \<Rightarrow> jsnum" where
  "val_to_number Undefined = NaN"
| "val_to_number (Own s) = string_to_number s"
| "val_to_number (Inherited k) = NaN"

text \<open>The text of a built-in member, as V8 (Chrome, Edge, Node) prints it: the prototype
  object is \<^verbatim>\<open>[object Object]\<close>, a function is its native source text, and the function
  under \<^verbatim>\<open>constructor\<close> is named \<^verbatim>\<open>Object\<close>. Other engines break the lines of the source
  text differently.\<close>

definition member_text :: "string \<Rightarrow> string" where
  "member_text k =
    (if k = ''__proto__'' then ''[object Object]''
     else ''function '' @ (if k = ''constructor'' then ''Object'' else k) @ ''() { [native code] }'')"

text \<open>The property key a value turns into when it indexes an object.\<close>

fun prop_key :: "string jsprop \<Rightarrow> string" where
  "prop_key Undefined = ''undefined''"
| "prop_key (Own s) = s"
| "prop_key (Inherited k) = member_text k"

subsection \<open>Categories, weights and the label tables (lines 14 to 28)\<close>

definition categories :: "row list \<Rightarrow> string list" where
  "categories key =
    map (\<lambda>k. to_string (k ''Category''))
      (filter (\<lambda>k. truthy (k ''Weighting'') \<and> truthy (k ''Category'')) key)"

definition weights :: "row list \<Rightarrow> jsnum list" where
  "weights key =
    map (\<lambda>k. parse_float (to_string (k ''Weighting'')))
      (filter (\<lambda>k. truthy (k ''Weighting'') \<and> truthy (k ''Category'')) key)"

definition nameList :: "row list \<Rightarrow> string option list" where
  "nameList preferences = map (\<lambda>p. p ''Name'') preferences"

definition genderList :: "row list \<Rightarrow> string option list" where
  "genderList preferences = map (\<lambda>p. p ''Gender'') preferences"

type_synonym labels = "string \<rightharpoonup> nat"

text \<open>The inner loop over the scales 1 to 4 of one key row: a truthy cell \<^verbatim>\<open>k[scale]\<close>
  becomes a label of that scale, a later scale overwriting an earlier one.\<close>

definition row_labels :: "row \<Rightarrow> labels" where
  "row_labels k =
    fold (\<lambda>scale m.
            if truthy (k (show_nat scale)) \<and> to_string (k (show_nat scale)) \<noteq> ''__proto__''
            then m(to_string (k (show_nat scale)) \<mapsto> scale) else m)
      [1, 2, 3, 4] Map.empty"

text \<open>The outer loop: every key row with a truthy \<^verbatim>\<open>Category\<close> starts a fresh label table
  under that name, replacing the table of an earlier row of the same name.\<close>

definition mappings :: "row list \<Rightarrow> (string \<rightharpoonup> labels)" where
  "mappings key =
    fold (\<lambda>k mp. if truthy (k ''Category'') then mp(to_string (k ''Category'') \<mapsto> row_labels k) else mp)
      key Map.empty"

subsection \<open>The preference matrix and the compatibility cost (lines 31 to 47)\<close>

text \<open>The body of the inner arrow function of \<^verbatim>\<open>prefMatrix\<close>, for one row and one
  category. Every category has a label table, since the rows that give the categories
  are among the rows that start a table. A label table holds the numbers 1 to 4, which
  are truthy; a built-in member found in its place is truthy too and converts to
  \<^verbatim>\<open>NaN\<close>.\<close>

definition pref_code :: "(string \<rightharpoonup> labels) \<Rightarrow> row \<Rightarrow> string \<Rightarrow> jsnum" where
  "pref_code mp p cat =
    (let val = get_prop p cat in
     if val_to_number val \<noteq> NaN then val_to_number val
     else case mp cat of
       None \<Rightarrow> Fin 2
     | Some m \<Rightarrow>
         (case get_prop m (prop_key val) of
            Own c \<Rightarrow> if c = 0 then Fin 2 else Fin (real c)
          | Inherited k \<Rightarrow> NaN
          | Undefined \<Rightarrow> Fin 2))"

definition prefMatrix :: "row list \<Rightarrow> row list \<Rightarrow> jsnum list list" where
  "prefMatrix key preferences =
    map (\<lambda>p. map (\<lambda>cat. pref_code (mappings key) p cat) (categories key)) preferences"

text \<open>\<^verbatim>\<open>compatibility(i, j)\<close> with the variables it closes over as arguments: the weights,
  the matrix and the number of categories. It is only ever called with \<open>i\<close> and \<open>j\<close>
  below the number of residents, where every read is in range.\<close>

definition compatibility :: "jsnum list \<Rightarrow> jsnum list list \<Rightarrow> nat \<Rightarrow> nat \<Rightarrow> nat \<Rightarrow> jsnum" where
  "compatibility ws pm ncat i j =
    foldl (\<lambda>sum k. js_add sum (js_mul (ws ! k) (js_abs (js_sub (pm ! i ! k) (pm ! j ! k)))))
      (Fin 0) [0..<ncat]"

subsection \<open>The integer program (lines 50 to 117)\<close>

datatype bound_type = GLP_FR | GLP_LO | GLP_UP | GLP_DB | GLP_FX

datatype direction = GLP_MIN | GLP_MAX

datatype msg_level = GLP_MSG_OFF | GLP_MSG_ERR | GLP_MSG_ON | GLP_MSG_ALL | GLP_MSG_DBG

record lp_var =
  v_name :: string
  v_coef :: jsnum

record bnds =
  b_type :: bound_type
  b_ub :: jsnum
  b_lb :: jsnum

record constr =
  c_name :: string
  c_vars :: "lp_var list"
  c_bnds :: bnds

record objective =
  o_direction :: direction
  o_name :: string
  o_vars :: "lp_var list"

record lp =
  lp_name :: string
  lp_objective :: objective
  lp_subjectTo :: "constr list"
  lp_binaries :: "string list"

definition roomCaps :: "row list \<Rightarrow> jsnum list" where
  "roomCaps rooms = map (\<lambda>r. to_number (r ''Capacity'')) rooms"

definition var_name :: "nat \<Rightarrow> nat \<Rightarrow> nat \<Rightarrow> string" where
  "var_name i j r = ''x_'' @ show_nat i @ ''_'' @ show_nat j @ ''_'' @ show_nat r"

text \<open>The three nested loops of lines 58 to 68. Every push to \<^verbatim>\<open>vars\<close> is matched by a
  push of the same name to \<^verbatim>\<open>varNames\<close> and to \<^verbatim>\<open>binaries\<close>.\<close>

definition vars :: "string option list \<Rightarrow> nat \<Rightarrow> (nat \<Rightarrow> nat \<Rightarrow> jsnum) \<Rightarrow> lp_var list" where
  "vars gl m cost =
    [\<lparr>v_name = var_name i j r, v_coef = cost i j\<rparr>.
       r \<leftarrow> [0..<m], i \<leftarrow> [0..<length gl], j \<leftarrow> [Suc i..<length gl], gl ! i = gl ! j]"

definition varNames :: "string option list \<Rightarrow> nat \<Rightarrow> string list" where
  "varNames gl m = map v_name (vars gl m (\<lambda>i j. NaN))"

text \<open>Line 76: the name under which the pair of \<open>i\<close> and \<open>j\<close> was generated for room \<open>r\<close>,
  smaller index first.\<close>

definition res_var_name :: "nat \<Rightarrow> nat \<Rightarrow> nat \<Rightarrow> string" where
  "res_var_name i j r = (if i < j then var_name i j r else var_name j i r)"

text \<open>The loop body of lines 72 to 81 for resident \<open>i\<close>.\<close>

definition resVars :: "string list \<Rightarrow> nat \<Rightarrow> nat \<Rightarrow> nat \<Rightarrow> lp_var list" where
  "resVars vn n m i =
    [\<lparr>v_name = v, v_coef = Fin 1\<rparr>.
       r \<leftarrow> [0..<m], j \<leftarrow> [0..<n], i \<noteq> j, v \<leftarrow> [res_var_name i j r], v \<in> set vn]"

text \<open>The loop body of lines 91 to 99 for room \<open>r\<close>.\<close>

definition roomVars :: "string list \<Rightarrow> nat \<Rightarrow> nat \<Rightarrow> lp_var list" where
  "roomVars vn n r =
    [\<lparr>v_name = v, v_coef = Fin 2\<rparr>.
       i \<leftarrow> [0..<n], j \<leftarrow> [Suc i..<n], v \<leftarrow> [var_name i j r], v \<in> set vn]"

definition res_constr :: "string list \<Rightarrow> nat \<Rightarrow> nat \<Rightarrow> nat \<Rightarrow> constr" where
  "res_constr vn n m i =
    \<lparr>c_name = ''res_'' @ show_nat i, c_vars = resVars vn n m i,
     c_bnds = \<lparr>b_type = GLP_FX, b_ub = Fin 1, b_lb = Fin 1\<rparr>\<rparr>"

definition room_constr :: "string list \<Rightarrow> nat \<Rightarrow> jsnum list \<Rightarrow> nat \<Rightarrow> constr" where
  "room_constr vn n caps r =
    \<lparr>c_name = ''room_'' @ show_nat r, c_vars = roomVars vn n r,
     c_bnds = \<lparr>b_type = GLP_UP, b_ub = caps ! r, b_lb = Fin 0\<rparr>\<rparr>"

definition subjectTo :: "string list \<Rightarrow> nat \<Rightarrow> jsnum list \<Rightarrow> constr list" where
  "subjectTo vn n caps =
    map (res_constr vn n (length caps)) [0..<n] @ map (room_constr vn n caps) [0..<length caps]"

text \<open>The program handed to the solver.\<close>

definition build_lp :: "row list \<Rightarrow> row list \<Rightarrow> row list \<Rightarrow> lp" where
  "build_lp preferences rooms key =
    (let gl = genderList preferences;
         n = length (nameList preferences);
         caps = roomCaps rooms;
         cost = compatibility (weights key) (prefMatrix key preferences) (length (categories key));
         vs = vars gl (length caps) cost
     in \<lparr>lp_name = ''roommate-matching'',
         lp_objective = \<lparr>o_direction = GLP_MIN, o_name = ''obj'', o_vars = vs\<rparr>,
         lp_subjectTo = subjectTo (map v_name vs) n caps,
         lp_binaries = map v_name vs\<rparr>)"

subsection \<open>The solver's reply and the decoder (lines 120 to 145)\<close>

text \<open>
  The solver is outside this program. Of its reply the code reads \<^verbatim>\<open>result.result\<close>,
  \<^verbatim>\<open>result.result.vars\<close> (either may be missing), \<^verbatim>\<open>result.result.status\<close> and the values
  \<^verbatim>\<open>result.result.vars[v]\<close>. The values are kept as the list of the reply's entries, in
  the order the solver wrote them; \<open>map_of\<close> reads an entry by its name.
\<close>

record solution =
  s_status :: nat
  s_vars :: "(string \<times> jsnum) list option"

record solver_reply =
  r_result :: "solution option"

datatype error = Error string | TypeError

record assignment =
  pair_a :: "string option"
  pair_b :: "string option"
  pair_room :: "string option"

record outcome =
  assignments :: "assignment list"
  unassigned :: "string option list"

text \<open>\<^verbatim>\<open>s.split(c)\<close> for a one-character separator.\<close>

fun split_on :: "char \<Rightarrow> string \<Rightarrow> string list" where
  "split_on c [] = [[]]"
| "split_on c (x # xs) =
    (if x = c then [] # split_on c xs
     else (case split_on c xs of p # ps \<Rightarrow> (x # p) # ps | [] \<Rightarrow> [[x]]))"

text \<open>The elements a destructuring pattern binds: \<^verbatim>\<open>undefined\<close> past the end.\<close>

definition nth_opt :: "'a list \<Rightarrow> nat \<Rightarrow> 'a option" where
  "nth_opt xs n = (if n < length xs then Some (xs ! n) else None)"

text \<open>An array read \<^verbatim>\<open>xs[k]\<close> whose index is a string (or \<^verbatim>\<open>undefined\<close>): the element when
  the string is the decimal text of an index below the length, \<^verbatim>\<open>undefined\<close> otherwise.
  The strings read here are the parts of a variable name.\<close>

definition array_index :: "string \<Rightarrow> nat option" where
  "array_index s =
    (if s \<noteq> [] \<and> list_all is_digit s \<and> show_nat (digits_val s) = s then Some (digits_val s)
     else None)"

definition array_get :: "'a list \<Rightarrow> string option \<Rightarrow> 'a option" where
  "array_get xs k =
    (case array_index (to_string k) of
       Some n \<Rightarrow> if n < length xs then Some (xs ! n) else None
     | None \<Rightarrow> None)"

text \<open>One turn of the loop of lines 128 to 135. The state is the list \<^verbatim>\<open>assignments\<close> and
  the set \<^verbatim>\<open>assigned\<close> (a list without repetition). \<^verbatim>\<open>rooms[r].Room\<close> raises a
  \<^verbatim>\<open>TypeError\<close> when \<^verbatim>\<open>rooms[r]\<close> is \<^verbatim>\<open>undefined\<close>.\<close>

definition decode_step ::
  "string option list \<Rightarrow> row list \<Rightarrow> (string \<times> jsnum) list \<Rightarrow> string \<Rightarrow>
   assignment list \<times> jsnum list \<Rightarrow> error + assignment list \<times> jsnum list" where
  "decode_step nl rooms sol v st =
    (if map_of sol v = Some (Fin 1) then
       (let parts = split_on CHR ''_'' v;
            i = nth_opt parts 1; j = nth_opt parts 2; r = nth_opt parts 3
        in case array_get rooms r of
             None \<Rightarrow> Inl TypeError
           | Some rm \<Rightarrow>
               Inr (fst st @
                      [\<lparr>pair_a = Option.bind (array_get nl i) id,
                        pair_b = Option.bind (array_get nl j) id,
                        pair_room = (if truthy (rm ''Room'') then rm ''Room'' else r)\<rparr>],
                    List.insert (to_number j) (List.insert (to_number i) (snd st))))
     else Inr st)"

fun decode_loop ::
  "string option list \<Rightarrow> row list \<Rightarrow> (string \<times> jsnum) list \<Rightarrow> string list \<Rightarrow>
   assignment list \<times> jsnum list \<Rightarrow> error + assignment list \<times> jsnum list" where
  "decode_loop nl rooms sol [] st = Inr st"
| "decode_loop nl rooms sol (v # vs) st =
    (case decode_step nl rooms sol v st of
       Inl e \<Rightarrow> Inl e
     | Inr st' \<Rightarrow> decode_loop nl rooms sol vs st')"

text \<open>Lines 137 to 144.\<close>

definition unassigned_of :: "string option list \<Rightarrow> jsnum list \<Rightarrow> string option list" where
  "unassigned_of nl assigned =
    (if length assigned < length nl
     then [nl ! i. i \<leftarrow> [0..<length nl], Fin (real i) \<notin> set assigned]
     else [])"

definition decode ::
  "string option list \<Rightarrow> row list \<Rightarrow> string list \<Rightarrow> (string \<times> jsnum) list \<Rightarrow> error + outcome" where
  "decode nl rooms vn sol =
    (case decode_loop nl rooms sol vn ([], []) of
       Inl e \<Rightarrow> Inl e
     | Inr (asg, assigned) \<Rightarrow> Inr \<lparr>assignments = asg, unassigned = unassigned_of nl assigned\<rparr>)"

definition failure_message :: "string" where
  "failure_message = ''GLPK failed to find a solution. Status: ''"

text \<open>The whole function. The solver is its first argument: it maps the program and the
  message level to a reply, or to the error it raises (which \<^verbatim>\<open>await\<close> re-raises).\<close>

definition solveRoommateAssignment ::
  "(lp \<Rightarrow> msg_level \<Rightarrow> error + solver_reply) \<Rightarrow> row list \<Rightarrow> row list \<Rightarrow> row list \<Rightarrow>
   error + outcome" where
  "solveRoommateAssignment solve preferences rooms key =
    (let program = build_lp preferences rooms key in
     case solve program GLP_MSG_OFF of
       Inl e \<Rightarrow> Inl e
     | Inr reply \<Rightarrow>
         (case r_result reply of
            None \<Rightarrow> Inl (Error (failure_message @ ''unknown''))
          | Some res \<Rightarrow>
              (case s_vars res of
                 None \<Rightarrow> Inl (Error (failure_message @ show_nat (s_status res)))
               | Some sol \<Rightarrow>
                   decode (nameList preferences) rooms (lp_binaries program) sol)))"

section \<open>Notions the properties are stated with\<close>

subsection \<open>The keys of the decision variables\<close>

text \<open>The triples (room, first resident, second resident) for which the loops of lines 58
  to 68 create a variable, in the order they create them.\<close>

definition pair_keys :: "string option list \<Rightarrow> nat \<Rightarrow> (nat \<times> nat \<times> nat) list" where
  "pair_keys gl m =
    [(r, i, j). r \<leftarrow> [0..<m], i \<leftarrow> [0..<length gl], j \<leftarrow> [Suc i..<length gl], gl ! i = gl ! j]"

text \<open>Room-major order: by room, then by the first resident, then by the second.\<close>

fun key_before :: "nat \<times> nat \<times> nat \<Rightarrow> nat \<times> nat \<times> nat \<Rightarrow> bool" where
  "key_before (r, i, j) (r', i', j') = (r < r' \<or> (r = r' \<and> (i < i' \<or> (i = i' \<and> j < j'))))"

text \<open>A variable is accepted when the solver's value for it is the number 1.\<close>

definition accepted :: "(string \<times> jsnum) list \<Rightarrow> nat \<times> nat \<times> nat \<Rightarrow> bool" where
  "accepted sol k = (case k of (r, i, j) \<Rightarrow> map_of sol (var_name i j r) = Some (Fin 1))"

definition room_label :: "row list \<Rightarrow> nat \<Rightarrow> string option" where
  "room_label rooms r =
    (case (rooms ! r) ''Room'' of
       None \<Rightarrow> Some (show_nat r)
     | Some l \<Rightarrow> if l = [] then Some (show_nat r) else Some l)"

definition assignment_of :: "string option list \<Rightarrow> row list \<Rightarrow> nat \<times> nat \<times> nat \<Rightarrow> assignment" where
  "assignment_of nl rooms k =
    (case k of (r, i, j) \<Rightarrow> \<lparr>pair_a = nl ! i, pair_b = nl ! j, pair_room = room_label rooms r\<rparr>)"

text \<open>What one accepted variable adds to the set \<^verbatim>\<open>assigned\<close>.\<close>

definition mark :: "nat \<times> nat \<times> nat \<Rightarrow> jsnum list \<Rightarrow> jsnum list" where
  "mark k s = (case k of (r, i, j) \<Rightarrow> List.insert (Fin (real j)) (List.insert (Fin (real i)) s))"

subsection \<open>A small instance\<close>

text \<open>Four residents, two of each gender; two rooms of capacity 2, the second without a
  \<^verbatim>\<open>Room\<close> column; one weighted category and one key row without a weighting.\<close>

definition example_preferences :: "row list" where
  "example_preferences =
    [map_of [(''Name'', ''A''), (''Gender'', ''M''), (''cleanliness'', ''1'')],
     map_of [(''Name'', ''B''), (''Gender'', ''M''), (''cleanliness'', ''neat'')],
     map_of [(''Name'', ''C''), (''Gender'', ''F''), (''cleanliness'', ''4'')],
     map_of [(''Name'', ''D''), (''Gender'', ''F''), (''cleanliness'', ''3'')]]"

definition example_rooms :: "row list" where
  "example_rooms =
    [map_of [(''Room'', ''R1''), (''Capacity'', ''2'')],
     map_of [(''Label'', ''R2''), (''Capacity'', ''2'')]]"

definition example_key :: "row list" where
  "example_key =
    [map_of [(''Category'', ''cleanliness''), (''Weighting'', ''1''),
             (''1'', ''neat''), (''4'', ''messy'')],
     map_of [(''Category'', ''notes'')]]"

text \<open>A reply of the solver for the instance, its entries in an order of the solver's own:
  both pairs in separate rooms.\<close>

definition example_solution :: "(string \<times> jsnum) list" where
  "example_solution =
    [(''x_2_3_1'', Fin 1), (''x_0_1_1'', Fin 0), (''x_2_3_0'', Fin 0), (''x_0_1_0'', Fin 1)]"

definition example_solver :: "lp \<Rightarrow> msg_level \<Rightarrow> error + solver_reply" where
  "example_solver program level =
    Inr \<lparr>r_result = Some \<lparr>s_status = 5, s_vars = Some example_solution\<rparr>\<rparr>"

subsection \<open>An instance without a feasible pairing\<close>

text \<open>Three residents of one gender and a single room of capacity 2: the per-resident
  equalities cannot all hold.\<close>

definition three_men :: "row list" where
  "three_men =
    [map_of [(''Name'', ''A''), (''Gender'', ''M'')],
     map_of [(''Name'', ''B''), (''Gender'', ''M'')],
     map_of [(''Name'', ''C''), (''Gender'', ''M'')]]"

definition one_double_room :: "row list" where
  "one_double_room = [map_of [(''Room'', ''R1''), (''Capacity'', ''2'')]]"

text \<open>
  The solution status codes of GLPK, which the reply carries in \<^verbatim>\<open>result.result.status\<close>
  and the failure message of line 122 prints. They are constants of the solver library,
  not of this repository: 2 is a feasible solution, 4 is "no feasible solution exists", 5
  is an optimal solution.
\<close>

definition GLP_FEAS :: nat where "GLP_FEAS = 2"

definition GLP_NOFEAS :: nat where "GLP_NOFEAS = 4"

definition GLP_OPT :: nat where "GLP_OPT = 5"

text \<open>A reply reports infeasibility or failure when the solver raised an error, when the
  reply has no result or no values, or when its status is neither optimal nor feasible.\<close>

definition reports_failure :: "error + solver_reply \<Rightarrow> bool" where
  "reports_failure answer =
    (case answer of
       Inl e \<Rightarrow> True
     | Inr reply \<Rightarrow>
         (case r_result reply of
            None \<Rightarrow> True
          | Some res \<Rightarrow> s_vars res = None \<or> (s_status res \<noteq> GLP_OPT \<and> s_status res \<noteq> GLP_FEAS)))"

text \<open>The reply of a solver that found the instance infeasible and, as GLPK does, still
  returns a value (zero) for every variable.\<close>

definition infeasible_reply :: solver_reply where
  "infeasible_reply =
    \<lparr>r_result = Some \<lparr>s_status = GLP_NOFEAS,
       s_vars = Some [(''x_0_1_0'', Fin 0), (''x_0_2_0'', Fin 0), (''x_1_2_0'', Fin 0)]\<rparr>\<rparr>"

subsection \<open>The key table, in the words of the specification\<close>

text \<open>A field has a value when the cell is present and not empty.\<close>

definition has_value :: "string option \<Rightarrow> bool" where
  "has_value v = (case v of Some (c # cs) \<Rightarrow> True | _ \<Rightarrow> False)"

text \<open>The key rows that possess both a \<^verbatim>\<open>Category\<close> and a \<^verbatim>\<open>Weighting\<close> value, in
  their original order.\<close>

definition used_key_rows :: "row list \<Rightarrow> row list" where
  "used_key_rows key = filter (\<lambda>k. has_value (k ''Category'') \<and> has_value (k ''Weighting'')) key"

subsection \<open>Finite and whole numbers\<close>




subsection \<open>A key with an infinite weight\<close>



subsection \<open>The ordinal mapping of a category, read off the key table\<close>





subsection \<open>What a constraint means\<close>

text \<open>
  The solver is not part of this program; a constraint is read the way GLPK defines its
  bound types: the linear form over the listed variables is at most the upper bound
  (\<open>GLP_UP\<close>), equal to the bound (\<open>GLP_FX\<close>), at least the lower bound (\<open>GLP_LO\<close>),
  between both (\<open>GLP_DB\<close>), or free (\<open>GLP_FR\<close>). A valuation gives every variable name
  a number; it is binary on a list of names when each of them has the value 0 or 1.
\<close>

definition lin_sum :: "(string \<Rightarrow> jsnum) \<Rightarrow> lp_var list \<Rightarrow> jsnum" where
  "lin_sum x vs = foldl (\<lambda>s v. js_add s (js_mul (v_coef v) (x (v_name v)))) (Fin 0) vs"

definition satisfies :: "(string \<Rightarrow> jsnum) \<Rightarrow> constr \<Rightarrow> bool" where
  "satisfies x c =
    (case b_type (c_bnds c) of
       GLP_FR \<Rightarrow> True
     | GLP_LO \<Rightarrow> js_le (b_lb (c_bnds c)) (lin_sum x (c_vars c))
     | GLP_UP \<Rightarrow> js_le (lin_sum x (c_vars c)) (b_ub (c_bnds c))
     | GLP_DB \<Rightarrow> js_le (b_lb (c_bnds c)) (lin_sum x (c_vars c)) \<and>
                 js_le (lin_sum x (c_vars c)) (b_ub (c_bnds c))
     | GLP_FX \<Rightarrow> lin_sum x (c_vars c) = b_lb (c_bnds c))"

definition binary_on :: "(string \<Rightarrow> jsnum) \<Rightarrow> string list \<Rightarrow> bool" where
  "binary_on x vn = list_all (\<lambda>v. x v = Fin 0 \<or> x v = Fin 1) vn"

text \<open>The valuation of the instance's solution: the value the reply lists, 0 otherwise.\<close>

definition example_values :: "string \<Rightarrow> jsnum" where
  "example_values v = (case map_of example_solution v of Some a \<Rightarrow> a | None \<Rightarrow> Fin 0)"

section \<open>Auxiliary facts\<close>

lemma lt10_cases: "(d::nat) < 10 \<Longrightarrow> d \<in> {0, 1, 2, 3, 4, 5, 6, 7, 8, 9}"
  by auto

lemma digit_val_digit_char: "d < 10 \<Longrightarrow> digit_val (digit_char d) = d"
  by (drule lt10_cases) (auto simp add: digit_val_def digit_char_def)

lemma is_digit_digit_char: "d < 10 \<Longrightarrow> is_digit (digit_char d)"
  by (drule lt10_cases) (auto simp add: is_digit_def digit_char_def)

lemma digits_val_snoc: "digits_val (s @ [c]) = 10 * digits_val s + digit_val c"
  by (simp add: digits_val_def)

lemma show_nat_digits: "list_all is_digit (show_nat n)"
proof (induction n rule: show_nat.induct)
  case (1 n)
  show ?case
  proof (cases "n < 10")
    case True
    then show ?thesis by (simp add: show_nat.simps [of n] is_digit_digit_char)
  next
    case False
    with 1 show ?thesis by (simp add: show_nat.simps [of n] is_digit_digit_char)
  qed
qed

lemma show_nat_not_Nil: "show_nat n \<noteq> []"
  by (simp add: show_nat.simps [of n])

lemma digits_val_show_nat: "digits_val (show_nat n) = n"
proof (induction n rule: show_nat.induct)
  case (1 n)
  show ?case
  proof (cases "n < 10")
    case True
    then show ?thesis
      by (simp add: show_nat.simps [of n] digits_val_def digit_val_digit_char)
  next
    case False
    with 1 show ?thesis
      by (simp add: show_nat.simps [of n] digits_val_snoc digit_val_digit_char)
  qed
qed

lemma show_nat_inj: "show_nat a = show_nat b \<Longrightarrow> a = b"
  by (metis digits_val_show_nat)

lemma is_digit_not_sep: "is_digit c \<Longrightarrow> c \<noteq> CHR ''_''"
  by (auto simp add: is_digit_def)

lemma sep_notin_show_nat: "CHR ''_'' \<notin> set (show_nat n)"
  using show_nat_digits [of n] is_digit_not_sep by (auto simp add: list_all_iff)

lemma split_on_no_sep: "c \<notin> set u \<Longrightarrow> split_on c u = [u]"
  by (induction u) auto

lemma split_on_append: "c \<notin> set u \<Longrightarrow> split_on c (u @ c # rest) = u # split_on c rest"
  by (induction u) auto

lemma split_var_name:
  "split_on CHR ''_'' (var_name i j r) = [''x'', show_nat i, show_nat j, show_nat r]"
proof -
  have "var_name i j r = ''x'' @ CHR ''_'' # (show_nat i @ CHR ''_'' # (show_nat j @ CHR ''_'' # show_nat r))"
    by (simp add: var_name_def)
  then show ?thesis
    by (simp only: split_on_append split_on_no_sep sep_notin_show_nat not_False_eq_True) 
      (simp add: split_on_append split_on_no_sep sep_notin_show_nat)
qed

lemma var_name_inj: "var_name i j r = var_name i' j' r' \<Longrightarrow> i = i' \<and> j = j' \<and> r = r'"
proof -
  assume "var_name i j r = var_name i' j' r'"
  then have "split_on CHR ''_'' (var_name i j r) = split_on CHR ''_'' (var_name i' j' r')"
    by simp
  then show ?thesis
    by (simp add: split_var_name) (blast dest: show_nat_inj)
qed

lemma array_index_show_nat: "array_index (show_nat n) = Some n"
  by (simp add: array_index_def show_nat_digits show_nat_not_Nil digits_val_show_nat)

lemma array_get_show_nat: "array_get xs (Some (show_nat n)) = (if n < length xs then Some (xs ! n) else None)"
  by (simp add: array_get_def to_string_def array_index_show_nat)

lemma is_digit_not_space: "is_digit c \<Longrightarrow> \<not> is_space c"
  by (auto simp add: is_digit_def is_space_def)

lemma is_digit_not_special:
  "is_digit c \<Longrightarrow> c \<noteq> CHR ''+'' \<and> c \<noteq> CHR ''-'' \<and> c \<noteq> CHR ''I'' \<and> c \<notin> set ''xXoObB''"
  by (auto simp add: is_digit_def)

lemma is_digit_not_radix: "is_digit c \<Longrightarrow> c \<notin> set ''xXoObB''"
  by (auto simp add: is_digit_def)

lemma trim_digits:
  assumes "list_all is_digit s"
  shows "trim s = s"
proof (cases s rule: rev_cases)
  case Nil
  then show ?thesis by (simp add: trim_def)
next
  case (snoc u c)
  with assms have c: "\<not> is_space c" by (simp add: is_digit_not_space)
  from assms have "s = [] \<or> \<not> is_space (hd s)"
    by (cases s) (simp_all add: is_digit_not_space)
  then have "dropWhile is_space s = s"
    by (cases s) auto
  with snoc c show ?thesis by (simp add: trim_def)
qed

lemma non_decimal_digits:
  assumes "list_all is_digit s"
  shows "non_decimal s = None"
proof (cases s)
  case Nil
  then show ?thesis by (simp add: non_decimal_def)
next
  case (Cons z t)
  show ?thesis
  proof (cases t)
    case Nil
    with Cons show ?thesis by (simp add: non_decimal_def)
  next
    case (Cons p ds)
    with assms \<open>s = z # t\<close> have "is_digit p" by simp
    then have "p \<notin> set ''xXoObB''" by (rule is_digit_not_radix)
    with Cons \<open>s = z # t\<close> show ?thesis by (simp add: non_decimal_def)
  qed
qed

lemma takeWhile_digits: "list_all is_digit s \<Longrightarrow> takeWhile is_digit s = s \<and> dropWhile is_digit s = []"
  by (simp add: list_all_iff)

lemma scan_decimal_digits:
  assumes "list_all is_digit s" and "s \<noteq> []"
  shows "scan_decimal s = Some (Fin (real (digits_val s)), [])"
proof -
  from assms obtain c t where s: "s = c # t" and c: "is_digit c"
    by (cases s) auto
  from c have "take 8 s \<noteq> ''Infinity''"
    using is_digit_not_special [of c] by (auto simp add: s)
  with assms have "scan_unsigned s = Some (Fin (real (digits_val s)), [])"
    by (simp add: scan_unsigned_def takeWhile_digits scan_exponent_def pow10_def)
  with c show ?thesis
    using is_digit_not_special [of c] by (simp add: scan_decimal_def s)
qed

lemma string_to_number_digits:
  "list_all is_digit s \<Longrightarrow> s \<noteq> [] \<Longrightarrow> string_to_number s = Fin (real (digits_val s))"
  by (simp add: string_to_number_def trim_digits non_decimal_digits scan_decimal_digits)

lemma to_number_show_nat: "to_number (Some (show_nat n)) = Fin (real n)"
  by (simp add: to_number_def string_to_number_digits show_nat_digits show_nat_not_Nil
      digits_val_show_nat)

lemma vars_pair_keys:
  "vars gl m cost = map (\<lambda>(r, i, j). \<lparr>v_name = var_name i j r, v_coef = cost i j\<rparr>) (pair_keys gl m)"
  by (simp add: vars_def pair_keys_def map_concat comp_def if_distrib [of "map _"] cong: if_cong)

lemma varNames_pair_keys: "varNames gl m = map (\<lambda>(r, i, j). var_name i j r) (pair_keys gl m)"
  by (simp add: varNames_def vars_pair_keys comp_def case_prod_beta)

lemma set_pair_keys:
  "(r, i, j) \<in> set (pair_keys gl m) \<longleftrightarrow> r < m \<and> i < j \<and> j < length gl \<and> gl ! i = gl ! j"
  by (auto simp add: pair_keys_def)

lemma var_name_in_varNames:
  "var_name i j r \<in> set (varNames gl m) \<longleftrightarrow> r < m \<and> i < j \<and> j < length gl \<and> gl ! i = gl ! j"
proof -
  have "var_name i j r \<in> set (varNames gl m) \<longleftrightarrow> (r, i, j) \<in> set (pair_keys gl m)"
    by (force simp add: varNames_pair_keys image_iff dest: var_name_inj)
  then show ?thesis by (simp add: set_pair_keys)
qed

lemma sorted_wrt_concat_map_upt:
  assumes "\<And>x. a \<le> x \<Longrightarrow> x < b \<Longrightarrow> sorted_wrt R (f x)"
    and "\<And>x y u v. a \<le> x \<Longrightarrow> x < y \<Longrightarrow> y < b \<Longrightarrow> u \<in> set (f x) \<Longrightarrow> v \<in> set (f y) \<Longrightarrow> R u v"
  shows "sorted_wrt R (concat (map f [a..<b]))"
  using assms
proof (induction b)
  case 0
  then show ?case by simp
next
  case (Suc b)
  show ?case
  proof (cases "a \<le> b")
    case True
    have "sorted_wrt R (concat (map f [a..<b]))"
      using Suc.prems by (intro Suc.IH) auto
    with True Suc.prems show ?thesis
      by (auto simp add: sorted_wrt_append)
  next
    case False
    then show ?thesis by simp
  qed
qed

lemma sorted_pair_keys: "sorted_wrt key_before (pair_keys gl m)"
  unfolding pair_keys_def
  by (intro sorted_wrt_concat_map_upt) auto

lemma sorted_wrt_distinct: "sorted_wrt R xs \<Longrightarrow> (\<And>x. \<not> R x x) \<Longrightarrow> distinct xs"
  by (induction xs) auto

lemma distinct_pair_keys: "distinct (pair_keys gl m)"
  by (rule sorted_wrt_distinct [OF sorted_pair_keys]) auto

lemma distinct_varNames: "distinct (varNames gl m)"
  by (auto simp add: varNames_pair_keys distinct_map distinct_pair_keys inj_on_def dest: var_name_inj)

lemma decode_step_var:
  assumes "r < length rooms" "i < length nl" "j < length nl"
  shows "decode_step nl rooms sol (var_name i j r) st =
    (if accepted sol (r, i, j)
     then Inr (fst st @ [assignment_of nl rooms (r, i, j)], mark (r, i, j) (snd st))
     else Inr st)"
  using assms
  by (simp add: decode_step_def accepted_def split_var_name nth_opt_def array_get_show_nat
      to_number_show_nat assignment_of_def room_label_def truthy_def mark_def split: option.splits)

lemma decode_loop_keys:
  assumes "\<And>r i j. (r, i, j) \<in> set ks \<Longrightarrow> r < length rooms \<and> i < length nl \<and> j < length nl"
  shows "decode_loop nl rooms sol (map (\<lambda>(r, i, j). var_name i j r) ks) (asg, asd) =
    Inr (asg @ map (assignment_of nl rooms) (filter (accepted sol) ks),
         fold mark (filter (accepted sol) ks) asd)"
  using assms
proof (induction ks arbitrary: asg asd)
  case Nil
  then show ?case by simp
next
  case (Cons k ks)
  obtain r i j where k: "k = (r, i, j)" by (cases k)
  from Cons.prems k have b: "r < length rooms" "i < length nl" "j < length nl" by auto
  from Cons.prems have rest: "\<And>r i j. (r, i, j) \<in> set ks \<Longrightarrow> r < length rooms \<and> i < length nl \<and> j < length nl"
    by auto
  show ?case
    by (simp add: k decode_step_var [OF b] Cons.IH [OF rest])
qed

lemma set_fold_mark:
  "set (fold mark ks asd) = set asd \<union> (\<Union>(r, i, j) \<in> set ks. {Fin (real i), Fin (real j)})"
  by (induction ks arbitrary: asd) (auto simp add: mark_def)

lemma distinct_fold_mark: "distinct asd \<Longrightarrow> distinct (fold mark ks asd)"
  by (induction ks arbitrary: asd) (auto simp add: mark_def)

lemma concat_map_if: "concat (map (\<lambda>x. if P x then [f x] else []) xs) = map f (filter P xs)"
  by (induction xs) simp_all

lemma unassigned_of_filter:
  assumes "distinct asd" and "set asd \<subseteq> (\<lambda>i. Fin (real i)) ` {0..<length nl}"
  shows "unassigned_of nl asd =
    map (\<lambda>i. nl ! i) (filter (\<lambda>i. Fin (real i) \<notin> set asd) [0..<length nl])"
proof (cases "length asd < length nl")
  case True
  then show ?thesis by (simp add: unassigned_of_def concat_map_if)
next
  case False
  let ?B = "(\<lambda>i. Fin (real i)) ` {0..<length nl}"
  have "card (set asd) = length asd" using assms(1) by (simp add: distinct_card)
  moreover have "card ?B \<le> length nl"
    using card_image_le [of "{0..<length nl}" "\<lambda>i. Fin (real i)"] by simp
  ultimately have le: "card ?B \<le> card (set asd)" using False by linarith
  have fin: "finite ?B" by simp
  have eq: "set asd = ?B" by (rule card_seteq [OF fin assms(2) le])
  have "filter (\<lambda>i. Fin (real i) \<notin> set asd) [0..<length nl] = []"
    unfolding eq filter_empty_conv by simp
  moreover have "unassigned_of nl asd = []"
    using False by (simp only: unassigned_of_def if_False)
  ultimately show ?thesis by (simp only: list.map)
qed

lemma build_lp_binaries:
  "lp_binaries (build_lp p rooms key) = varNames (genderList p) (length rooms)"
  by (simp add: build_lp_def Let_def roomCaps_def varNames_def vars_pair_keys comp_def case_prod_beta)

lemma build_lp_objective_names:
  "map v_name (o_vars (lp_objective (build_lp p rooms key))) = lp_binaries (build_lp p rooms key)"
  by (simp add: build_lp_def Let_def)

lemma length_genderList: "length (genderList p) = length p"
  by (simp add: genderList_def)

lemma length_nameList: "length (nameList p) = length p"
  by (simp add: nameList_def)

lemma decode_binaries:
  "decode (nameList p) rooms (lp_binaries (build_lp p rooms key)) sol =
    Inr \<lparr>assignments =
           map (assignment_of (nameList p) rooms)
             (filter (accepted sol) (pair_keys (genderList p) (length rooms))),
         unassigned =
           unassigned_of (nameList p)
             (fold mark (filter (accepted sol) (pair_keys (genderList p) (length rooms))) [])\<rparr>"
proof -
  have b: "\<And>r i j. (r, i, j) \<in> set (pair_keys (genderList p) (length rooms)) \<Longrightarrow>
      r < length rooms \<and> i < length (nameList p) \<and> j < length (nameList p)"
    by (auto simp add: set_pair_keys length_genderList length_nameList)
  show ?thesis
    by (simp add: decode_def build_lp_binaries varNames_pair_keys decode_loop_keys [OF b])
qed

lemma solve_decodes:
  assumes "solve (build_lp p rooms key) GLP_MSG_OFF = Inr reply"
    and "r_result reply = Some res" and "s_vars res = Some sol"
  shows "solveRoommateAssignment solve p rooms key =
    decode (nameList p) rooms (lp_binaries (build_lp p rooms key)) sol"
  using assms by (simp add: solveRoommateAssignment_def Let_def)

lemma map_of_same_entries:
  assumes "set sol' = set sol" and "distinct (map fst sol)" and "distinct (map fst sol')"
  shows "map_of sol' = map_of sol"
  using assms by (simp add: map_of_inject_set)

lemma decode_step_map_of:
  "map_of sol' = map_of sol \<Longrightarrow> decode_step nl rooms sol' v st = decode_step nl rooms sol v st"
  by (simp add: decode_step_def)

lemma decode_loop_map_of:
  "map_of sol' = map_of sol \<Longrightarrow> decode_loop nl rooms sol' vn st = decode_loop nl rooms sol vn st"
proof (induction vn arbitrary: st)
  case Nil
  show ?case by simp
next
  case (Cons v vs)
  have "decode_step nl rooms sol' v st = decode_step nl rooms sol v st"
    using Cons.prems by (rule decode_step_map_of)
  then show ?case
    by (simp add: Cons.IH [OF Cons.prems] split: sum.splits)
qed

lemma not_in_marked:
  "Fin (real i) \<notin> set (fold mark ks []) \<longleftrightarrow> (\<forall>(r, a, b) \<in> set ks. i \<noteq> a \<and> i \<noteq> b)"
  by (auto simp add: set_fold_mark)

lemma marked_in_range:
  assumes "\<And>r i j. (r, i, j) \<in> set ks \<Longrightarrow> i < n \<and> j < n"
  shows "set (fold mark ks []) \<subseteq> (\<lambda>i. Fin (real i)) ` {0..<n}"
  using assms by (auto simp add: set_fold_mark)

lemma solve_outcome:
  assumes "solve (build_lp p rooms key) GLP_MSG_OFF = Inr reply"
    and "r_result reply = Some res" and "s_vars res = Some sol"
  shows "solveRoommateAssignment solve p rooms key =
    Inr \<lparr>assignments =
           map (assignment_of (nameList p) rooms)
             (filter (accepted sol) (pair_keys (genderList p) (length rooms))),
         unassigned =
           unassigned_of (nameList p)
             (fold mark (filter (accepted sol) (pair_keys (genderList p) (length rooms))) [])\<rparr>"
proof -
  have "solveRoommateAssignment solve p rooms key =
      decode (nameList p) rooms (lp_binaries (build_lp p rooms key)) sol"
    using assms by (rule solve_decodes [of solve p rooms key reply res sol])
  then show ?thesis by (simp only: decode_binaries)
qed

lemma unassigned_of_marked:
  assumes "\<And>r i j. (r, i, j) \<in> set ks \<Longrightarrow> i < length nl \<and> j < length nl"
  shows "unassigned_of nl (fold mark ks []) =
    map (\<lambda>i. nl ! i) (filter (\<lambda>i. \<forall>(r, a, b) \<in> set ks. i \<noteq> a \<and> i \<noteq> b) [0..<length nl])"
proof -
  have d: "distinct (fold mark ks [])" by (simp add: distinct_fold_mark)
  have s: "set (fold mark ks []) \<subseteq> (\<lambda>i. Fin (real i)) ` {0..<length nl}"
    using assms by (rule marked_in_range)
  show ?thesis
    by (simp only: unassigned_of_filter [OF d s] not_in_marked)
qed

lemma pair_room_assignment_of:
  "pair_room (assignment_of nl rooms (r, i, j)) =
     (if truthy ((rooms ! r) ''Room'') then (rooms ! r) ''Room'' else Some (show_nat r))"
  by (simp add: assignment_of_def room_label_def truthy_def split: option.splits)

lemma map_pair_room_assignment_of:
  "map pair_room (map (assignment_of nl rooms) ks) =
     map (\<lambda>(r, i, j). if truthy ((rooms ! r) ''Room'') then (rooms ! r) ''Room'' else Some (show_nat r)) ks"
  by (induction ks) (auto simp add: pair_room_assignment_of)

lemma truthy_has_value: "truthy v = has_value v"
  by (simp add: truthy_def has_value_def split: option.splits list.splits)













text \<open>What the guard of line 121 lets through: an error of the solver is passed on, a
  reply without \<^verbatim>\<open>result\<close> or without \<^verbatim>\<open>vars\<close> raises the error of line 122, and a reply
  with values is decoded.\<close>

lemma guard_outcomes:
  "(\<forall>e. solve (build_lp p rooms key) GLP_MSG_OFF = Inl e \<longrightarrow>
      solveRoommateAssignment solve p rooms key = Inl e) \<and>
   (\<forall>reply. solve (build_lp p rooms key) GLP_MSG_OFF = Inr reply \<and> r_result reply = None \<longrightarrow>
      solveRoommateAssignment solve p rooms key = Inl (Error (failure_message @ ''unknown''))) \<and>
   (\<forall>reply res. solve (build_lp p rooms key) GLP_MSG_OFF = Inr reply \<and>
        r_result reply = Some res \<and> s_vars res = None \<longrightarrow>
      solveRoommateAssignment solve p rooms key =
        Inl (Error (failure_message @ show_nat (s_status res)))) \<and>
   (\<forall>reply res sol. solve (build_lp p rooms key) GLP_MSG_OFF = Inr reply \<and>
        r_result reply = Some res \<and> s_vars res = Some sol \<longrightarrow>
      (\<exists>out. solveRoommateAssignment solve p rooms key = Inr out))"
proof (intro conjI allI impI)
  fix e assume "solve (build_lp p rooms key) GLP_MSG_OFF = Inl e"
  then show "solveRoommateAssignment solve p rooms key = Inl e"
    by (simp add: solveRoommateAssignment_def Let_def)
next
  fix reply assume "solve (build_lp p rooms key) GLP_MSG_OFF = Inr reply \<and> r_result reply = None"
  then show "solveRoommateAssignment solve p rooms key = Inl (Error (failure_message @ ''unknown''))"
    by (simp add: solveRoommateAssignment_def Let_def)
next
  fix reply res
  assume "solve (build_lp p rooms key) GLP_MSG_OFF = Inr reply \<and>
        r_result reply = Some res \<and> s_vars res = None"
  then show "solveRoommateAssignment solve p rooms key =
        Inl (Error (failure_message @ show_nat (s_status res)))"
    by (simp add: solveRoommateAssignment_def Let_def)
next
  fix reply res sol
  assume a: "solve (build_lp p rooms key) GLP_MSG_OFF = Inr reply \<and>
        r_result reply = Some res \<and> s_vars res = Some sol"
  have "solveRoommateAssignment solve p rooms key =
    Inr \<lparr>assignments =
           map (assignment_of (nameList p) rooms)
             (filter (accepted sol) (pair_keys (genderList p) (length rooms))),
         unassigned =
           unassigned_of (nameList p)
             (fold mark (filter (accepted sol) (pair_keys (genderList p) (length rooms))) [])\<rparr>"
    by (rule solve_outcome [of solve p rooms key reply res sol]) (simp_all only: a)
  then show "\<exists>out. solveRoommateAssignment solve p rooms key = Inr out"
    by (rule exI)
qed

lemma string_to_number_empty: "string_to_number [] = Fin 0"
  by (simp add: string_to_number_def trim_def)

lemma filter_by_key_nth:
  "distinct (map f xs) \<Longrightarrow> i < length xs \<Longrightarrow> filter (\<lambda>y. f y = f (xs ! i)) xs = [xs ! i]"
proof (induction xs arbitrary: i)
  case Nil
  then show ?case by simp
next
  case (Cons x xs)
  show ?case
  proof (cases i)
    case 0
    from Cons.prems have nx: "f x \<notin> f ` set xs" by simp
    then have "\<And>y. y \<in> set xs \<Longrightarrow> f y \<noteq> f x" by (metis imageI)
    then have "filter (\<lambda>y. f y = f x) xs = []" by (simp add: filter_empty_conv)
    with 0 show ?thesis by simp
  next
    case (Suc i')
    with Cons.prems have i': "i' < length xs" and d: "distinct (map f xs)" by simp_all
    from Cons.prems have nx: "f x \<notin> f ` set xs" by simp
    from i' have "f (xs ! i') \<in> f ` set xs" by simp
    with nx have "f x \<noteq> f (xs ! i')" by metis
    with Suc Cons.IH [OF d i'] show ?thesis by simp
  qed
qed

lemma res_room_names_differ: "''res_'' @ a \<noteq> ''room_'' @ b"
  by simp

lemma distinct_constraint_names: "distinct (map c_name (subjectTo vn n caps))"
proof -
  have 1: "distinct (map (\<lambda>i. ''res_'' @ show_nat i) [0..<n])"
    by (auto simp add: distinct_map inj_on_def dest: show_nat_inj)
  have 2: "distinct (map (\<lambda>r. ''room_'' @ show_nat r) [0..<length caps])"
    by (auto simp add: distinct_map inj_on_def dest: show_nat_inj)
  show ?thesis
    using 1 2 by (auto simp add: subjectTo_def res_constr_def room_constr_def comp_def)
qed

lemma subjectTo_res_nth:
  "i < n \<Longrightarrow> subjectTo vn n caps ! i = res_constr vn n (length caps) i"
  by (simp add: subjectTo_def nth_append)

lemma subjectTo_room_nth:
  "r < length caps \<Longrightarrow> subjectTo vn n caps ! (n + r) = room_constr vn n caps r"
  by (simp add: subjectTo_def nth_append)

lemma length_subjectTo: "length (subjectTo vn n caps) = n + length caps"
  by (simp add: subjectTo_def)

lemma only_res_constr:
  assumes "i < n"
  shows "filter (\<lambda>c. c_name c = ''res_'' @ show_nat i) (subjectTo vn n caps) =
    [res_constr vn n (length caps) i]"
proof -
  have "filter (\<lambda>c. c_name c = c_name (subjectTo vn n caps ! i)) (subjectTo vn n caps) =
      [subjectTo vn n caps ! i]"
    using assms by (intro filter_by_key_nth distinct_constraint_names) (simp add: length_subjectTo)
  then show ?thesis
    using assms by (simp add: subjectTo_res_nth res_constr_def)
qed

lemma only_room_constr:
  assumes "r < length caps"
  shows "filter (\<lambda>c. c_name c = ''room_'' @ show_nat r) (subjectTo vn n caps) =
    [room_constr vn n caps r]"
proof -
  have "filter (\<lambda>c. c_name c = c_name (subjectTo vn n caps ! (n + r))) (subjectTo vn n caps) =
      [subjectTo vn n caps ! (n + r)]"
    using assms by (intro filter_by_key_nth distinct_constraint_names) (simp add: length_subjectTo)
  then show ?thesis
    using assms by (simp add: subjectTo_room_nth room_constr_def)
qed

lemma build_lp_subjectTo:
  "lp_subjectTo (build_lp p rooms key) =
    subjectTo (varNames (genderList p) (length rooms)) (length p) (roomCaps rooms)"
  by (simp add: build_lp_def Let_def roomCaps_def varNames_def vars_pair_keys comp_def
      case_prod_beta length_nameList)

lemma length_roomCaps: "length (roomCaps rooms) = length rooms"
  by (simp add: roomCaps_def)

lemma distinct_concat_map_upt:
  assumes "\<And>x. a \<le> x \<Longrightarrow> x < b \<Longrightarrow> distinct (f x)"
    and "\<And>x y u v. a \<le> x \<Longrightarrow> x < y \<Longrightarrow> y < b \<Longrightarrow> u \<in> set (f x) \<Longrightarrow> v \<in> set (f y) \<Longrightarrow> u \<noteq> v"
  shows "distinct (concat (map f [a..<b]))"
proof -
  have "sorted_wrt (\<noteq>) (concat (map f [a..<b]))"
  proof (rule sorted_wrt_concat_map_upt)
    fix x assume "a \<le> x" "x < b"
    then have "distinct (f x)" by (rule assms(1))
    then show "sorted_wrt (\<noteq>) (f x)" by (induction "f x" arbitrary: x) (auto simp add: distinct_conv_nth sorted_wrt_iff_nth_less)
  next
    fix x y u v assume "a \<le> x" "x < y" "y < b" "u \<in> set (f x)" "v \<in> set (f y)"
    then show "u \<noteq> v" by (rule assms(2))
  qed
  then show ?thesis by (rule sorted_wrt_distinct) simp
qed

lemma names_resVars:
  "map v_name (resVars vn n m i) =
    [v. r \<leftarrow> [0..<m], j \<leftarrow> [0..<n], i \<noteq> j, v \<leftarrow> [res_var_name i j r], v \<in> set vn]"
  by (simp add: resVars_def map_concat comp_def if_distrib [of "map _"] cong: if_cong)

lemma mem_resVars:
  "v \<in> set (map v_name (resVars vn n m i)) \<longleftrightarrow>
    (\<exists>r j. r < m \<and> j < n \<and> i \<noteq> j \<and> v = res_var_name i j r \<and> v \<in> set vn)"
proof
  assume "v \<in> set (map v_name (resVars vn n m i))"
  then obtain r j where "r < m" "j < n" "i \<noteq> j" "res_var_name i j r \<in> set vn"
    "v = res_var_name i j r"
    unfolding names_resVars by auto
  then have "r < m \<and> j < n \<and> i \<noteq> j \<and> v = res_var_name i j r \<and> v \<in> set vn" by simp
  then show "\<exists>r j. r < m \<and> j < n \<and> i \<noteq> j \<and> v = res_var_name i j r \<and> v \<in> set vn"
    by (intro exI)
next
  assume "\<exists>r j. r < m \<and> j < n \<and> i \<noteq> j \<and> v = res_var_name i j r \<and> v \<in> set vn"
  then obtain r j where a: "r < m" "j < n" "i \<noteq> j" "v = res_var_name i j r" "v \<in> set vn"
    by (elim exE conjE)
  have "\<exists>r' \<in> {0..<m}. \<exists>j' \<in> {0..<n} \<inter> {x. i \<noteq> x} \<inter> {j'. res_var_name i j' r' \<in> set vn}.
      v = res_var_name i j' r'"
    using a by (intro bexI [of _ r] bexI [of _ j]) simp_all
  then show "v \<in> set (map v_name (resVars vn n m i))"
    unfolding names_resVars by simp
qed

lemma names_roomVars:
  "map v_name (roomVars vn n r) =
    [v. i \<leftarrow> [0..<n], j \<leftarrow> [Suc i..<n], v \<leftarrow> [var_name i j r], v \<in> set vn]"
  by (simp add: roomVars_def map_concat comp_def if_distrib [of "map _"] cong: if_cong)

lemma mem_roomVars:
  "v \<in> set (map v_name (roomVars vn n r)) \<longleftrightarrow>
    (\<exists>i j. i < j \<and> j < n \<and> v = var_name i j r \<and> v \<in> set vn)"
proof
  assume "v \<in> set (map v_name (roomVars vn n r))"
  then obtain i j where "i < j" "j < n" "var_name i j r \<in> set vn" "v = var_name i j r"
    unfolding names_roomVars by (auto simp add: Suc_le_eq)
  then have "i < j \<and> j < n \<and> v = var_name i j r \<and> v \<in> set vn" by simp
  then show "\<exists>i j. i < j \<and> j < n \<and> v = var_name i j r \<and> v \<in> set vn"
    by (intro exI)
next
  assume "\<exists>i j. i < j \<and> j < n \<and> v = var_name i j r \<and> v \<in> set vn"
  then obtain i j where a: "i < j" "j < n" "v = var_name i j r" "v \<in> set vn"
    by (elim exE conjE)
  have "\<exists>i' \<in> {0..<n}. \<exists>j' \<in> {Suc i'..<n} \<inter> {j'. var_name i' j' r \<in> set vn}.
      v = var_name i' j' r"
    using a by (intro bexI [of _ i] bexI [of _ j]) simp_all
  then show "v \<in> set (map v_name (roomVars vn n r))"
    unfolding names_roomVars by simp
qed

lemma res_var_name_cases:
  "res_var_name i j r = var_name a b r' \<Longrightarrow> r' = r \<and> ((a = i \<and> b = j) \<or> (a = j \<and> b = i))"
  by (auto simp add: res_var_name_def dest: var_name_inj split: if_splits)

lemma res_var_name_inj:
  assumes "i \<noteq> j" and "i \<noteq> j'" and "res_var_name i j r = res_var_name i j' r'"
  shows "j = j' \<and> r = r'"
proof -
  obtain a b where "res_var_name i j' r' = var_name a b r'"
    by (cases "i < j'") (simp_all add: res_var_name_def)
  with assms(3) have "res_var_name i j r = var_name a b r'" "res_var_name i j' r' = var_name a b r'"
    by simp_all
  then have "r' = r \<and> ((a = i \<and> b = j) \<or> (a = j \<and> b = i))"
    "(a = i \<and> b = j') \<or> (a = j' \<and> b = i)"
    by (auto dest: res_var_name_cases)
  with assms(1,2) show ?thesis by auto
qed

lemma set_resVars:
  assumes "i < length gl"
  shows "set (map v_name (resVars (varNames gl m) (length gl) m i)) =
    {v \<in> set (varNames gl m). \<exists>a b r. v = var_name a b r \<and> (a = i \<or> b = i)}"
proof (intro set_eqI iffI)
  fix v assume "v \<in> set (map v_name (resVars (varNames gl m) (length gl) m i))"
  then obtain r j where v: "v = res_var_name i j r" and mem: "v \<in> set (varNames gl m)"
    unfolding mem_resVars by (elim exE conjE)
  have "\<exists>a b r. v = var_name a b r \<and> (a = i \<or> b = i)"
  proof (cases "i < j")
    case True
    with v have "v = var_name i j r \<and> (i = i \<or> j = i)" by (simp add: res_var_name_def)
    then show ?thesis by (intro exI)
  next
    case False
    with v have "v = var_name j i r \<and> (j = i \<or> i = i)" by (simp add: res_var_name_def)
    then show ?thesis by (intro exI)
  qed
  with mem show "v \<in> {v \<in> set (varNames gl m). \<exists>a b r. v = var_name a b r \<and> (a = i \<or> b = i)}"
    by simp
next
  fix v assume "v \<in> {v \<in> set (varNames gl m). \<exists>a b r. v = var_name a b r \<and> (a = i \<or> b = i)}"
  then obtain a b r where v: "v = var_name a b r" and ab: "a = i \<or> b = i"
    and mem: "v \<in> set (varNames gl m)"
    by auto
  from mem v have b: "r < m" "a < b" "b < length gl"
    by (simp_all add: var_name_in_varNames)
  from ab show "v \<in> set (map v_name (resVars (varNames gl m) (length gl) m i))"
  proof
    assume "a = i"
    with b v mem have "r < m \<and> b < length gl \<and> i \<noteq> b \<and> v = res_var_name i b r \<and>
        v \<in> set (varNames gl m)"
      by (simp add: res_var_name_def)
    then show ?thesis unfolding mem_resVars by (intro exI)
  next
    assume "b = i"
    with b v mem have "r < m \<and> a < length gl \<and> i \<noteq> a \<and> v = res_var_name i a r \<and>
        v \<in> set (varNames gl m)"
      by (simp add: res_var_name_def)
    then show ?thesis unfolding mem_resVars by (intro exI)
  qed
qed

lemma set_roomVars:
  "set (map v_name (roomVars (varNames gl m) (length gl) r)) =
    {v \<in> set (varNames gl m). \<exists>i j. v = var_name i j r}"
proof (intro set_eqI iffI)
  fix v assume "v \<in> set (map v_name (roomVars (varNames gl m) (length gl) r))"
  then obtain i j where "v = var_name i j r" "v \<in> set (varNames gl m)"
    unfolding mem_roomVars by (elim exE conjE)
  then have "v \<in> set (varNames gl m) \<and> (\<exists>i j. v = var_name i j r)"
    by (intro conjI exI)
  then show "v \<in> {v \<in> set (varNames gl m). \<exists>i j. v = var_name i j r}"
    by simp
next
  fix v assume "v \<in> {v \<in> set (varNames gl m). \<exists>i j. v = var_name i j r}"
  then obtain i j where v: "v = var_name i j r" and mem: "v \<in> set (varNames gl m)"
    by auto
  from mem v have "i < j \<and> j < length gl"
    by (simp add: var_name_in_varNames)
  with v mem have "i < j \<and> j < length gl \<and> v = var_name i j r \<and> v \<in> set (varNames gl m)"
    by simp
  then show "v \<in> set (map v_name (roomVars (varNames gl m) (length gl) r))"
    unfolding mem_roomVars by (intro exI)
qed

lemma coef_resVars: "list_all (\<lambda>v. v_coef v = Fin 1) (resVars vn n m i)"
  unfolding resVars_def list_all_iff by auto

lemma coef_roomVars: "list_all (\<lambda>v. v_coef v = Fin 2) (roomVars vn n r)"
  unfolding roomVars_def list_all_iff by auto

lemma distinct_names_resVars: "distinct (map v_name (resVars vn n m i))"
  unfolding names_resVars
proof (rule distinct_concat_map_upt)
  fix r
  show "distinct (concat (map (\<lambda>j. if i \<noteq> j
      then concat (map (\<lambda>v. if v \<in> set vn then [v] else []) [res_var_name i j r]) else []) [0..<n]))"
  proof (rule distinct_concat_map_upt)
    fix j
    show "distinct (if i \<noteq> j
      then concat (map (\<lambda>v. if v \<in> set vn then [v] else []) [res_var_name i j r]) else [])"
      by simp
  next
    fix j j' u v
    assume "j < j'"
      and "u \<in> set (if i \<noteq> j
        then concat (map (\<lambda>v. if v \<in> set vn then [v] else []) [res_var_name i j r]) else [])"
      and "v \<in> set (if i \<noteq> j'
        then concat (map (\<lambda>v. if v \<in> set vn then [v] else []) [res_var_name i j' r]) else [])"
    then have "i \<noteq> j" "i \<noteq> j'" "u = res_var_name i j r" "v = res_var_name i j' r" "j \<noteq> j'"
      by (simp_all split: if_splits)
    then show "u \<noteq> v" by (metis res_var_name_inj)
  qed
next
  fix r r' u v
  assume "r < r'"
    and "u \<in> set (concat (map (\<lambda>j. if i \<noteq> j
      then concat (map (\<lambda>v. if v \<in> set vn then [v] else []) [res_var_name i j r]) else []) [0..<n]))"
    and "v \<in> set (concat (map (\<lambda>j. if i \<noteq> j
      then concat (map (\<lambda>v. if v \<in> set vn then [v] else []) [res_var_name i j r']) else []) [0..<n]))"
  then obtain j j' where "i \<noteq> j" "i \<noteq> j'" "u = res_var_name i j r" "v = res_var_name i j' r'" "r \<noteq> r'"
    by (auto split: if_splits)
  then show "u \<noteq> v" by (metis res_var_name_inj)
qed

lemma distinct_names_roomVars: "distinct (map v_name (roomVars vn n r))"
  unfolding names_roomVars
proof (rule distinct_concat_map_upt)
  fix i
  show "distinct (concat (map (\<lambda>j. concat (map (\<lambda>v. if v \<in> set vn then [v] else []) [var_name i j r]))
      [Suc i..<n]))"
  proof (rule distinct_concat_map_upt)
    fix j
    show "distinct (concat (map (\<lambda>v. if v \<in> set vn then [v] else []) [var_name i j r]))"
      by simp
  next
    fix j j' u v
    assume "j < j'"
      and "u \<in> set (concat (map (\<lambda>v. if v \<in> set vn then [v] else []) [var_name i j r]))"
      and "v \<in> set (concat (map (\<lambda>v. if v \<in> set vn then [v] else []) [var_name i j' r]))"
    then have "u = var_name i j r" "v = var_name i j' r" "j \<noteq> j'"
      by (simp_all split: if_splits)
    then show "u \<noteq> v" by (metis var_name_inj)
  qed
next
  fix i i' u v
  assume "i < i'"
    and "u \<in> set (concat (map (\<lambda>j. concat (map (\<lambda>v. if v \<in> set vn then [v] else []) [var_name i j r]))
      [Suc i..<n]))"
    and "v \<in> set (concat (map (\<lambda>j. concat (map (\<lambda>v. if v \<in> set vn then [v] else []) [var_name i' j r]))
      [Suc i'..<n]))"
  then obtain j j' where "u = var_name i j r" "v = var_name i' j' r" "i \<noteq> i'"
    by (auto split: if_splits)
  then show "u \<noteq> v" by (metis var_name_inj)
qed

lemma foldl_lin_sum:
  assumes "list_all (\<lambda>v. v_coef v = Fin c) vs"
    and "list_all (\<lambda>v. x (v_name v) = Fin 0 \<or> x (v_name v) = Fin 1) vs"
  shows "foldl (\<lambda>s v. js_add s (js_mul (v_coef v) (x (v_name v)))) (Fin a) vs =
    Fin (a + c * real (length (filter (\<lambda>v. x (v_name v) = Fin 1) vs)))"
  using assms
proof (induction vs arbitrary: a)
  case Nil
  show ?case by simp
next
  case (Cons v vs)
  from Cons.prems have c: "v_coef v = Fin c" and b: "x (v_name v) = Fin 0 \<or> x (v_name v) = Fin 1"
    and rest: "list_all (\<lambda>v. v_coef v = Fin c) vs"
      "list_all (\<lambda>v. x (v_name v) = Fin 0 \<or> x (v_name v) = Fin 1) vs"
    by simp_all
  from b show ?case
  proof
    assume z: "x (v_name v) = Fin 0"
    show ?thesis by (simp add: c z Cons.IH [OF rest])
  next
    assume o: "x (v_name v) = Fin 1"
    show ?thesis by (simp add: c o Cons.IH [OF rest] algebra_simps)
  qed
qed

lemma lin_sum_binary:
  assumes "list_all (\<lambda>v. v_coef v = Fin c) vs"
    and "list_all (\<lambda>v. x (v_name v) = Fin 0 \<or> x (v_name v) = Fin 1) vs"
  shows "lin_sum x vs = Fin (c * real (length (filter (\<lambda>v. x (v_name v) = Fin 1) vs)))"
  using foldl_lin_sum [OF assms, of 0] by (simp add: lin_sum_def)

lemma count_accepted_names:
  assumes "distinct (map v_name vs)"
  shows "length (filter (\<lambda>v. x (v_name v) = Fin 1) vs) =
    card {v \<in> set (map v_name vs). x v = Fin 1}"
proof -
  have "length (filter (\<lambda>v. x (v_name v) = Fin 1) vs) =
      length (filter (\<lambda>v. x v = Fin 1) (map v_name vs))"
    by (simp add: filter_map comp_def)
  also have "\<dots> = card (set (filter (\<lambda>v. x v = Fin 1) (map v_name vs)))"
    by (rule distinct_card [symmetric]) (rule distinct_filter [OF assms])
  also have "set (filter (\<lambda>v. x v = Fin 1) (map v_name vs)) =
      {v \<in> set (map v_name vs). x v = Fin 1}"
    by (rule set_filter)
  finally show ?thesis .
qed

lemma roomCaps_nth: "r < length rooms \<Longrightarrow> roomCaps rooms ! r = to_number ((rooms ! r) ''Capacity'')"
  by (simp add: roomCaps_def)

subsection \<open>The small instance, evaluated\<close>

lemma example_reply:
  "example_solver (build_lp example_preferences example_rooms example_key) GLP_MSG_OFF =
     Inr \<lparr>r_result = Some \<lparr>s_status = 5, s_vars = Some example_solution\<rparr>\<rparr>"
  by (simp add: example_solver_def)

lemma example_accepted_keys:
  "filter (accepted example_solution)
     (pair_keys (genderList example_preferences) (length example_rooms)) = [(0, 0, 1), (1, 2, 3)]"
  unfolding example_solution_def by code_simp

lemma example_assignments:
  "map (assignment_of (nameList example_preferences) example_rooms) [(0, 0, 1), (1, 2, 3)] =
    [\<lparr>pair_a = Some ''A'', pair_b = Some ''B'', pair_room = Some ''R1''\<rparr>,
     \<lparr>pair_a = Some ''C'', pair_b = Some ''D'', pair_room = Some ''1''\<rparr>]"
  by code_simp

lemma example_room_labels:
  "map (\<lambda>(r, i, j). if truthy ((example_rooms ! r) ''Room'') then (example_rooms ! r) ''Room''
                     else Some (show_nat r)) [(0::nat, 0::nat, 1::nat), (1, 2, 3)] =
   [Some ''R1'', Some ''1'']"
  by code_simp

lemma three_men_binaries:
  "lp_binaries (build_lp three_men one_double_room []) = [''x_0_1_0'', ''x_0_2_0'', ''x_1_2_0'']"
  by code_simp

lemma three_men_decode:
  "decode (nameList three_men) one_double_room [''x_0_1_0'', ''x_0_2_0'', ''x_1_2_0'']
     [(''x_0_1_0'', Fin 0), (''x_0_2_0'', Fin 0), (''x_1_2_0'', Fin 0)] =
   Inr \<lparr>assignments = [], unassigned = [Some ''A'', Some ''B'', Some ''C'']\<rparr>"
  by code_simp

lemma example_partial_unassigned:
  "map (\<lambda>i. nameList example_preferences ! i)
     (filter (\<lambda>i. \<forall>(r, a, b) \<in> set (filter (accepted [(''x_0_1_0'', Fin 1)])
                  (pair_keys (genderList example_preferences) (length example_rooms))).
                i \<noteq> a \<and> i \<noteq> b)
        [0..<length example_preferences]) = [Some ''C'', Some ''D'']"
  by code_simp

lemma example_used_rows:
  "map (\<lambda>k. to_string (k ''Category'')) (used_key_rows example_key) = [''cleanliness'']"
  by code_simp


lemma example_res_0:
  "filter (\<lambda>c'. c_name c' = ''res_'' @ show_nat 0)
     (lp_subjectTo (build_lp example_preferences example_rooms example_key)) =
   [\<lparr>c_name = ''res_0'',
     c_vars = [\<lparr>v_name = ''x_0_1_0'', v_coef = Fin 1\<rparr>, \<lparr>v_name = ''x_0_1_1'', v_coef = Fin 1\<rparr>],
     c_bnds = \<lparr>b_type = GLP_FX, b_ub = Fin 1, b_lb = Fin 1\<rparr>\<rparr>]"
  by code_simp

lemma example_room_0:
  "filter (\<lambda>c'. c_name c' = ''room_'' @ show_nat 0)
     (lp_subjectTo (build_lp example_preferences example_rooms example_key)) =
   [\<lparr>c_name = ''room_0'',
     c_vars = [\<lparr>v_name = ''x_0_1_0'', v_coef = Fin 2\<rparr>, \<lparr>v_name = ''x_2_3_0'', v_coef = Fin 2\<rparr>],
     c_bnds = \<lparr>b_type = GLP_UP, b_ub = Fin 2, b_lb = Fin 0\<rparr>\<rparr>]"
  by code_simp

lemma example_binaries:
  "lp_binaries (build_lp example_preferences example_rooms example_key) =
    [''x_0_1_0'', ''x_2_3_0'', ''x_0_1_1'', ''x_2_3_1'']"
  by code_simp

lemma example_values_binary:
  "binary_on example_values [''x_0_1_0'', ''x_2_3_0'', ''x_0_1_1'', ''x_2_3_1'']"
  by (simp add: binary_on_def example_values_def example_solution_def)

lemma example_values_room_0:
  "satisfies example_values
     \<lparr>c_name = ''room_0'',
       c_vars = [\<lparr>v_name = ''x_0_1_0'', v_coef = Fin 2\<rparr>, \<lparr>v_name = ''x_2_3_0'', v_coef = Fin 2\<rparr>],
       c_bnds = \<lparr>b_type = GLP_UP, b_ub = Fin 2, b_lb = Fin 0\<rparr>\<rparr>"
  by (simp add: satisfies_def lin_sum_def example_values_def example_solution_def)

section \<open>The properties\<close>

subsection \<open>Decision variables pair residents of one gender\<close>

text \<open>
  C6. Every decision variable the model builder creates is named for a room \<open>r\<close> and a
  pair of residents \<open>i < j\<close> whose \<^verbatim>\<open>Gender\<close> cells are identical, and no variable exists
  for a pair whose gender labels differ. The objective lists exactly the same variables.
\<close>

theorem variables_pair_same_gender:
  "(\<forall>v \<in> set (lp_binaries (build_lp p rooms key)).
      \<exists>i j r. v = var_name i j r \<and> i < j \<and> j < length p \<and> r < length rooms \<and>
        genderList p ! i = genderList p ! j) \<and>
   (\<forall>i j r. var_name i j r \<in> set (lp_binaries (build_lp p rooms key)) \<longrightarrow>
      i < j \<and> genderList p ! i = genderList p ! j) \<and>
   map v_name (o_vars (lp_objective (build_lp p rooms key))) = lp_binaries (build_lp p rooms key)"
proof (intro conjI ballI allI impI)
  fix v assume "v \<in> set (lp_binaries (build_lp p rooms key))"
  then obtain r i j where "(r, i, j) \<in> set (pair_keys (genderList p) (length rooms))"
    and "v = var_name i j r"
    by (auto simp add: build_lp_binaries varNames_pair_keys)
  then show "\<exists>i j r. v = var_name i j r \<and> i < j \<and> j < length p \<and> r < length rooms \<and>
        genderList p ! i = genderList p ! j"
    by (auto simp add: set_pair_keys length_genderList)
next
  fix i j r assume "var_name i j r \<in> set (lp_binaries (build_lp p rooms key))"
  then show "i < j" "genderList p ! i = genderList p ! j"
    by (simp_all add: build_lp_binaries var_name_in_varNames)
next
  show "map v_name (o_vars (lp_objective (build_lp p rooms key))) = lp_binaries (build_lp p rooms key)"
    by (rule build_lp_objective_names)
qed

theorem variables_pair_same_gender_witness:
  "var_name 0 1 0 \<in> set (lp_binaries (build_lp example_preferences example_rooms example_key)) \<and>
   genderList example_preferences ! 0 = genderList example_preferences ! 1"
proof -
  have "var_name 0 1 0 \<in> set (lp_binaries (build_lp example_preferences example_rooms example_key))"
    by code_simp
  with variables_pair_same_gender [of example_preferences example_rooms example_key]
  show ?thesis by blast
qed

subsection \<open>A failure of the solver\<close>

text \<open>
  C1. Whenever the solver reports infeasibility or failure, the function is to raise one
  error for the whole batch and to return no result record; the caller shows that error
  as "no feasible solution found", and line 122 is there to raise it with the solver's
  status. The code does not do so: the guard of line 121 tests only that the reply has a
  \<^verbatim>\<open>result\<close> with \<^verbatim>\<open>vars\<close>, never the status. For three residents of one gender and one room
  of capacity 2, a reply with the status "no feasible solution" and every variable at 0
  is decoded, and the function returns a record with no pair and all three residents
  unassigned.
\<close>

theorem infeasible_status_is_decoded:
  "reports_failure (Inr infeasible_reply) \<and>
   solveRoommateAssignment (\<lambda>program level. Inr infeasible_reply) three_men one_double_room [] =
     Inr \<lparr>assignments = [], unassigned = [Some ''A'', Some ''B'', Some ''C'']\<rparr>"
proof
  show "reports_failure (Inr infeasible_reply)"
    by (simp add: reports_failure_def infeasible_reply_def GLP_NOFEAS_def GLP_OPT_def GLP_FEAS_def)
next
  show "solveRoommateAssignment (\<lambda>program level. Inr infeasible_reply) three_men one_double_room [] =
     Inr \<lparr>assignments = [], unassigned = [Some ''A'', Some ''B'', Some ''C'']\<rparr>"
    by (simp add: solveRoommateAssignment_def Let_def infeasible_reply_def three_men_binaries
        three_men_decode)
qed

subsection \<open>The order of the decoded assignments\<close>

text \<open>
  C3. The decoder emits one assignment per accepted variable, in the order in which the
  variables were generated: the list of variable names is the list of generated keys,
  which is strictly increasing by room, then first resident, then second resident, and
  the assignments are the accepted keys in that order. The output depends on the
  solver's values only through the value stored under each name, so listing the same
  entries in another order changes nothing.
\<close>

theorem assignments_in_generation_order:
  assumes "solve (build_lp p rooms key) GLP_MSG_OFF = Inr reply"
    and "r_result reply = Some res" and "s_vars res = Some sol"
  shows "(\<exists>out. solveRoommateAssignment solve p rooms key = Inr out \<and>
            assignments out =
              map (assignment_of (nameList p) rooms)
                (filter (accepted sol) (pair_keys (genderList p) (length rooms)))) \<and>
         lp_binaries (build_lp p rooms key) =
           map (\<lambda>(r, i, j). var_name i j r) (pair_keys (genderList p) (length rooms)) \<and>
         sorted_wrt key_before (pair_keys (genderList p) (length rooms)) \<and>
         (\<forall>sol'. set sol' = set sol \<and> distinct (map fst sol) \<and> distinct (map fst sol') \<longrightarrow>
            decode (nameList p) rooms (lp_binaries (build_lp p rooms key)) sol' =
            decode (nameList p) rooms (lp_binaries (build_lp p rooms key)) sol)"
proof (intro conjI allI impI)
  let ?ks = "filter (accepted sol) (pair_keys (genderList p) (length rooms))"
  let ?out = "\<lparr>assignments = map (assignment_of (nameList p) rooms) ?ks,
               unassigned = unassigned_of (nameList p) (fold mark ?ks [])\<rparr>"
  have 1: "solveRoommateAssignment solve p rooms key = Inr ?out"
    using assms by (rule solve_outcome [of solve p rooms key reply res sol])
  have 2: "assignments ?out = map (assignment_of (nameList p) rooms) ?ks"
    by (simp only: outcome.select_convs)
  show "\<exists>out. solveRoommateAssignment solve p rooms key = Inr out \<and>
            assignments out = map (assignment_of (nameList p) rooms) ?ks"
    by (rule exI [of _ ?out]) (rule conjI [OF 1 2])
next
  show "lp_binaries (build_lp p rooms key) =
           map (\<lambda>(r, i, j). var_name i j r) (pair_keys (genderList p) (length rooms))"
    by (simp only: build_lp_binaries varNames_pair_keys)
next
  show "sorted_wrt key_before (pair_keys (genderList p) (length rooms))"
    by (rule sorted_pair_keys)
next
  fix sol'
  assume a: "set sol' = set sol \<and> distinct (map fst sol) \<and> distinct (map fst sol')"
  have "map_of sol' = map_of sol"
    by (rule map_of_same_entries) (simp_all only: a)
  then have "decode_loop (nameList p) rooms sol' (lp_binaries (build_lp p rooms key)) ([], []) =
      decode_loop (nameList p) rooms sol (lp_binaries (build_lp p rooms key)) ([], [])"
    by (rule decode_loop_map_of)
  then show "decode (nameList p) rooms (lp_binaries (build_lp p rooms key)) sol' =
            decode (nameList p) rooms (lp_binaries (build_lp p rooms key)) sol"
    by (simp only: decode_def)
qed

theorem assignments_in_generation_order_witness:
  "\<exists>out. solveRoommateAssignment example_solver example_preferences example_rooms example_key = Inr out \<and>
     assignments out =
       [\<lparr>pair_a = Some ''A'', pair_b = Some ''B'', pair_room = Some ''R1''\<rparr>,
        \<lparr>pair_a = Some ''C'', pair_b = Some ''D'', pair_room = Some ''1''\<rparr>]"
proof -
  let ?res = "\<lparr>s_status = 5, s_vars = Some example_solution\<rparr>"
  have "s_vars ?res = Some example_solution" "r_result \<lparr>r_result = Some ?res\<rparr> = Some ?res"
    by simp_all
  from assignments_in_generation_order
    [of example_solver example_preferences example_rooms example_key "\<lparr>r_result = Some ?res\<rparr>"
      ?res example_solution, OF example_reply this(2) this(1)]
  show ?thesis
    by (simp only: example_accepted_keys example_assignments)
qed

subsection \<open>The unassigned residents\<close>

text \<open>
  C8. The list \<^verbatim>\<open>unassigned\<close> holds the names of exactly the residents whose index occurs
  in no accepted variable, in ascending order of the index.
\<close>

theorem unassigned_are_the_unpaired:
  assumes "solve (build_lp p rooms key) GLP_MSG_OFF = Inr reply"
    and "r_result reply = Some res" and "s_vars res = Some sol"
  shows "\<exists>out. solveRoommateAssignment solve p rooms key = Inr out \<and>
    unassigned out =
      map (\<lambda>i. nameList p ! i)
        (filter (\<lambda>i. \<forall>(r, a, b) \<in> set (filter (accepted sol) (pair_keys (genderList p) (length rooms))).
                   i \<noteq> a \<and> i \<noteq> b)
           [0..<length p])"
proof -
  let ?ks = "filter (accepted sol) (pair_keys (genderList p) (length rooms))"
  let ?out = "\<lparr>assignments = map (assignment_of (nameList p) rooms) ?ks,
               unassigned = unassigned_of (nameList p) (fold mark ?ks [])\<rparr>"
  have 1: "solveRoommateAssignment solve p rooms key = Inr ?out"
    using assms by (rule solve_outcome [of solve p rooms key reply res sol])
  have "\<And>r i j. (r, i, j) \<in> set ?ks \<Longrightarrow> i < length (nameList p) \<and> j < length (nameList p)"
    by (auto simp add: set_pair_keys length_genderList length_nameList)
  then have "unassigned_of (nameList p) (fold mark ?ks []) =
      map (\<lambda>i. nameList p ! i)
        (filter (\<lambda>i. \<forall>(r, a, b) \<in> set ?ks. i \<noteq> a \<and> i \<noteq> b) [0..<length (nameList p)])"
    by (rule unassigned_of_marked)
  then have 2: "unassigned ?out =
      map (\<lambda>i. nameList p ! i)
        (filter (\<lambda>i. \<forall>(r, a, b) \<in> set ?ks. i \<noteq> a \<and> i \<noteq> b) [0..<length p])"
    by (simp only: outcome.select_convs length_nameList)
  show ?thesis
    by (rule exI [of _ ?out]) (rule conjI [OF 1 2])
qed

theorem unassigned_are_the_unpaired_witness:
  "\<exists>out. solveRoommateAssignment
            (\<lambda>program level. Inr \<lparr>r_result = Some \<lparr>s_status = 5, s_vars = Some [(''x_0_1_0'', Fin 1)]\<rparr>\<rparr>)
            example_preferences example_rooms example_key = Inr out \<and>
     unassigned out = [Some ''C'', Some ''D'']"
proof -
  let ?res = "\<lparr>s_status = 5, s_vars = Some [(''x_0_1_0'', Fin 1)]\<rparr>"
  let ?solve = "\<lambda>(program :: lp) (level :: msg_level). (Inr \<lparr>r_result = Some ?res\<rparr> :: error + solver_reply)"
  have h: "?solve (build_lp example_preferences example_rooms example_key) GLP_MSG_OFF =
      Inr \<lparr>r_result = Some ?res\<rparr>"
    "r_result \<lparr>r_result = Some ?res\<rparr> = Some ?res" "s_vars ?res = Some [(''x_0_1_0'', Fin 1)]"
    by simp_all
  from unassigned_are_the_unpaired
    [of ?solve example_preferences example_rooms example_key "\<lparr>r_result = Some ?res\<rparr>" ?res
      "[(''x_0_1_0'', Fin 1)]", OF h]
  show ?thesis
    by (simp only: example_partial_unassigned)
qed

subsection \<open>The room label of an assignment\<close>

text \<open>
  C10. The room label of a decoded assignment for room index \<open>r\<close> is the \<^verbatim>\<open>Room\<close> cell of
  that room's row when the cell is present and not empty, and otherwise the index \<open>r\<close>
  itself, in the decimal text it has in the variable name; a rooms table without a
  \<^verbatim>\<open>Room\<close> column yields indices as labels and no error.
\<close>

theorem room_label_or_index:
  assumes "solve (build_lp p rooms key) GLP_MSG_OFF = Inr reply"
    and "r_result reply = Some res" and "s_vars res = Some sol"
  shows "\<exists>out. solveRoommateAssignment solve p rooms key = Inr out \<and>
    map pair_room (assignments out) =
      map (\<lambda>(r, i, j). if truthy ((rooms ! r) ''Room'') then (rooms ! r) ''Room'' else Some (show_nat r))
        (filter (accepted sol) (pair_keys (genderList p) (length rooms)))"
proof -
  let ?ks = "filter (accepted sol) (pair_keys (genderList p) (length rooms))"
  let ?out = "\<lparr>assignments = map (assignment_of (nameList p) rooms) ?ks,
               unassigned = unassigned_of (nameList p) (fold mark ?ks [])\<rparr>"
  have 1: "solveRoommateAssignment solve p rooms key = Inr ?out"
    using assms by (rule solve_outcome [of solve p rooms key reply res sol])
  have 2: "map pair_room (assignments ?out) =
      map (\<lambda>(r, i, j). if truthy ((rooms ! r) ''Room'') then (rooms ! r) ''Room'' else Some (show_nat r)) ?ks"
    by (simp only: outcome.select_convs map_pair_room_assignment_of)
  show ?thesis
    by (rule exI [of _ ?out]) (rule conjI [OF 1 2])
qed

theorem room_label_or_index_witness:
  "\<exists>out. solveRoommateAssignment example_solver example_preferences example_rooms example_key = Inr out \<and>
     map pair_room (assignments out) = [Some ''R1'', Some ''1'']"
proof -
  let ?res = "\<lparr>s_status = 5, s_vars = Some example_solution\<rparr>"
  have "s_vars ?res = Some example_solution" "r_result \<lparr>r_result = Some ?res\<rparr> = Some ?res"
    by simp_all
  from room_label_or_index
    [of example_solver example_preferences example_rooms example_key "\<lparr>r_result = Some ?res\<rparr>"
      ?res example_solution, OF example_reply this(2) this(1)]
  show ?thesis
    by (simp only: example_accepted_keys example_room_labels)
qed

subsection \<open>The key rows the categories and weights come from\<close>

text \<open>
  C9. The category list and the weight vector are read off exactly the key rows that
  have both a \<^verbatim>\<open>Category\<close> and a \<^verbatim>\<open>Weighting\<close> value, in the order of the table; a row
  lacking either field contributes nothing.
\<close>

theorem key_rows_with_both_fields:
  "categories key = map (\<lambda>k. to_string (k ''Category'')) (used_key_rows key) \<and>
   weights key = map (\<lambda>k. parse_float (to_string (k ''Weighting''))) (used_key_rows key) \<and>
   subseq (used_key_rows key) key \<and>
   set (used_key_rows key) =
     {k \<in> set key. has_value (k ''Category'') \<and> has_value (k ''Weighting'')} \<and>
   (\<forall>k \<in> set (used_key_rows key).
      k ''Category'' = Some (to_string (k ''Category'')) \<and>
      k ''Weighting'' = Some (to_string (k ''Weighting'')))"
proof (intro conjI ballI)
  show "categories key = map (\<lambda>k. to_string (k ''Category'')) (used_key_rows key)"
    by (simp add: categories_def used_key_rows_def truthy_has_value conj_commute)
  show "weights key = map (\<lambda>k. parse_float (to_string (k ''Weighting''))) (used_key_rows key)"
    by (simp add: weights_def used_key_rows_def truthy_has_value conj_commute)
  show "subseq (used_key_rows key) key"
    by (simp add: used_key_rows_def)
  show "set (used_key_rows key) =
     {k \<in> set key. has_value (k ''Category'') \<and> has_value (k ''Weighting'')}"
    by (simp add: used_key_rows_def)
next
  fix k assume "k \<in> set (used_key_rows key)"
  then have "has_value (k ''Category'')" "has_value (k ''Weighting'')"
    by (simp_all add: used_key_rows_def)
  then show "k ''Category'' = Some (to_string (k ''Category''))"
    "k ''Weighting'' = Some (to_string (k ''Weighting''))"
    by (simp_all add: has_value_def to_string_def split: option.splits)
qed

theorem key_rows_with_both_fields_witness:
  "categories example_key = [''cleanliness''] \<and> length example_key = 2"
proof -
  from key_rows_with_both_fields [of example_key]
  have "categories example_key = map (\<lambda>k. to_string (k ''Category'')) (used_key_rows example_key)"
    by (rule conjunct1)
  then show ?thesis
    by (simp add: example_used_rows) (simp add: example_key_def)
qed

subsection \<open>The compatibility cost\<close>




subsection \<open>The normalised attribute codes\<close>




subsection \<open>The per-resident constraints\<close>

text \<open>
  C4. For every resident index \<open>i\<close> the program has exactly one constraint named for that
  resident. Its variables are all the generated decision variables that include \<open>i\<close>,
  over every room and every partner, each listed once and with coefficient 1, and its
  bound is the fixed equality with lower and upper bound 1.
\<close>

theorem resident_constraint:
  assumes "i < length p"
  shows "\<exists>c. filter (\<lambda>c'. c_name c' = ''res_'' @ show_nat i) (lp_subjectTo (build_lp p rooms key)) = [c] \<and>
      set (map v_name (c_vars c)) =
        {v \<in> set (lp_binaries (build_lp p rooms key)).
           \<exists>a b r. v = var_name a b r \<and> (a = i \<or> b = i)} \<and>
      distinct (map v_name (c_vars c)) \<and>
      list_all (\<lambda>v. v_coef v = Fin 1) (c_vars c) \<and>
      c_bnds c = \<lparr>b_type = GLP_FX, b_ub = Fin 1, b_lb = Fin 1\<rparr>"
proof -
  let ?gl = "genderList p"
  let ?vn = "varNames ?gl (length rooms)"
  let ?c = "res_constr ?vn (length p) (length (roomCaps rooms)) i"
  have 1: "filter (\<lambda>c'. c_name c' = ''res_'' @ show_nat i) (lp_subjectTo (build_lp p rooms key)) = [?c]"
    using assms by (simp only: build_lp_subjectTo only_res_constr)
  have v: "c_vars ?c = resVars ?vn (length ?gl) (length rooms) i"
    by (simp add: res_constr_def length_roomCaps length_genderList)
  have i: "i < length ?gl" using assms by (simp add: length_genderList)
  have 2: "set (map v_name (c_vars ?c)) =
        {v \<in> set (lp_binaries (build_lp p rooms key)).
           \<exists>a b r. v = var_name a b r \<and> (a = i \<or> b = i)}"
    by (simp only: v build_lp_binaries set_resVars [OF i])
  have 3: "distinct (map v_name (c_vars ?c))"
    by (simp only: v distinct_names_resVars)
  have 4: "list_all (\<lambda>v. v_coef v = Fin 1) (c_vars ?c)"
    by (simp only: v coef_resVars)
  have 5: "c_bnds ?c = \<lparr>b_type = GLP_FX, b_ub = Fin 1, b_lb = Fin 1\<rparr>"
    by (simp add: res_constr_def)
  show ?thesis
    by (rule exI [of _ ?c]) (intro conjI 1 2 3 4 5)
qed

theorem resident_constraint_witness:
  "0 < length example_preferences \<and>
   filter (\<lambda>c'. c_name c' = ''res_'' @ show_nat 0)
     (lp_subjectTo (build_lp example_preferences example_rooms example_key)) =
   [\<lparr>c_name = ''res_0'',
     c_vars = [\<lparr>v_name = ''x_0_1_0'', v_coef = Fin 1\<rparr>, \<lparr>v_name = ''x_0_1_1'', v_coef = Fin 1\<rparr>],
     c_bnds = \<lparr>b_type = GLP_FX, b_ub = Fin 1, b_lb = Fin 1\<rparr>\<rparr>] \<and>
   {''x_0_1_0'', ''x_0_1_1''} =
     {v \<in> set (lp_binaries (build_lp example_preferences example_rooms example_key)).
        \<exists>a b r. v = var_name a b r \<and> (a = 0 \<or> b = 0)}"
proof -
  have h: "0 < length example_preferences" by code_simp
  from resident_constraint [OF h, of example_rooms example_key]
  obtain c where f: "filter (\<lambda>c'. c_name c' = ''res_'' @ show_nat 0)
          (lp_subjectTo (build_lp example_preferences example_rooms example_key)) = [c]"
    and s: "set (map v_name (c_vars c)) =
          {v \<in> set (lp_binaries (build_lp example_preferences example_rooms example_key)).
             \<exists>a b r. v = var_name a b r \<and> (a = 0 \<or> b = 0)}"
    by (elim exE conjE)
  from f [unfolded example_res_0] have c: "c = \<lparr>c_name = ''res_0'',
     c_vars = [\<lparr>v_name = ''x_0_1_0'', v_coef = Fin 1\<rparr>, \<lparr>v_name = ''x_0_1_1'', v_coef = Fin 1\<rparr>],
     c_bnds = \<lparr>b_type = GLP_FX, b_ub = Fin 1, b_lb = Fin 1\<rparr>\<rparr>"
    by (simp only: list.inject simp_thms)
  have n: "set (map v_name (c_vars c)) = {''x_0_1_0'', ''x_0_1_1''}"
    by (simp add: c)
  from s have 3: "{''x_0_1_0'', ''x_0_1_1''} =
     {v \<in> set (lp_binaries (build_lp example_preferences example_rooms example_key)).
        \<exists>a b r. v = var_name a b r \<and> (a = 0 \<or> b = 0)}"
    by (simp only: n)
  show ?thesis
    by (intro conjI h example_res_0 3)
qed

subsection \<open>The per-room capacity constraints\<close>

text \<open>
  C5. For every room index \<open>r\<close> the program has exactly one constraint named for that
  room. Its variables are all the generated decision variables of room \<open>r\<close>, each listed
  once and with coefficient 2; its bound is an upper bound, the number in the room's
  \<^verbatim>\<open>Capacity\<close> cell. Hence in every 0/1 valuation that satisfies the constraint, twice
  the number of accepted pairs of room \<open>r\<close> is at most the capacity.
\<close>

theorem room_capacity_constraint:
  assumes "r < length rooms"
  shows "\<exists>c. filter (\<lambda>c'. c_name c' = ''room_'' @ show_nat r) (lp_subjectTo (build_lp p rooms key)) = [c] \<and>
      set (map v_name (c_vars c)) =
        {v \<in> set (lp_binaries (build_lp p rooms key)). \<exists>i j. v = var_name i j r} \<and>
      distinct (map v_name (c_vars c)) \<and>
      list_all (\<lambda>v. v_coef v = Fin 2) (c_vars c) \<and>
      c_bnds c = \<lparr>b_type = GLP_UP, b_ub = to_number ((rooms ! r) ''Capacity''), b_lb = Fin 0\<rparr> \<and>
      (\<forall>x. binary_on x (lp_binaries (build_lp p rooms key)) \<and> satisfies x c \<longrightarrow>
         js_le
           (Fin (2 * real (card {v \<in> set (lp_binaries (build_lp p rooms key)).
                                 (\<exists>i j. v = var_name i j r) \<and> x v = Fin 1})))
           (to_number ((rooms ! r) ''Capacity'')))"
proof -
  let ?gl = "genderList p"
  let ?vn = "varNames ?gl (length rooms)"
  let ?c = "room_constr ?vn (length p) (roomCaps rooms) r"
  let ?cap = "to_number ((rooms ! r) ''Capacity'')"
  have r: "r < length (roomCaps rooms)" using assms by (simp add: length_roomCaps)
  have 1: "filter (\<lambda>c'. c_name c' = ''room_'' @ show_nat r) (lp_subjectTo (build_lp p rooms key)) = [?c]"
    using r by (simp only: build_lp_subjectTo only_room_constr)
  have v: "c_vars ?c = roomVars ?vn (length ?gl) r"
    by (simp add: room_constr_def length_genderList)
  have 2: "set (map v_name (c_vars ?c)) =
        {v \<in> set (lp_binaries (build_lp p rooms key)). \<exists>i j. v = var_name i j r}"
    by (simp only: v build_lp_binaries set_roomVars)
  have 3: "distinct (map v_name (c_vars ?c))"
    by (simp only: v distinct_names_roomVars)
  have 4: "list_all (\<lambda>v. v_coef v = Fin 2) (c_vars ?c)"
    by (simp only: v coef_roomVars)
  have 5: "c_bnds ?c = \<lparr>b_type = GLP_UP, b_ub = ?cap, b_lb = Fin 0\<rparr>"
    using assms by (simp add: room_constr_def roomCaps_nth)
  have 6: "\<forall>x. binary_on x (lp_binaries (build_lp p rooms key)) \<and> satisfies x ?c \<longrightarrow>
         js_le
           (Fin (2 * real (card {v \<in> set (lp_binaries (build_lp p rooms key)).
                                 (\<exists>i j. v = var_name i j r) \<and> x v = Fin 1})))
           ?cap"
  proof (intro allI impI)
    fix x
    assume a: "binary_on x (lp_binaries (build_lp p rooms key)) \<and> satisfies x ?c"
    then have bin: "\<And>v. v \<in> set (lp_binaries (build_lp p rooms key)) \<Longrightarrow> x v = Fin 0 \<or> x v = Fin 1"
      by (simp add: binary_on_def list_all_iff)
    have "\<And>w. w \<in> set (c_vars ?c) \<Longrightarrow> v_name w \<in> set (lp_binaries (build_lp p rooms key))"
    proof -
      fix w assume "w \<in> set (c_vars ?c)"
      then have "v_name w \<in> set (map v_name (c_vars ?c))" by simp
      then show "v_name w \<in> set (lp_binaries (build_lp p rooms key))"
        unfolding 2 by simp
    qed
    then have b: "list_all (\<lambda>w. x (v_name w) = Fin 0 \<or> x (v_name w) = Fin 1) (c_vars ?c)"
      using bin by (simp add: list_all_iff)
    have "lin_sum x (c_vars ?c) =
        Fin (2 * real (length (filter (\<lambda>w. x (v_name w) = Fin 1) (c_vars ?c))))"
      using 4 b by (rule lin_sum_binary)
    also have "length (filter (\<lambda>w. x (v_name w) = Fin 1) (c_vars ?c)) =
        card {v \<in> set (map v_name (c_vars ?c)). x v = Fin 1}"
      using 3 by (rule count_accepted_names)
    also have "{v \<in> set (map v_name (c_vars ?c)). x v = Fin 1} =
        {v \<in> set (lp_binaries (build_lp p rooms key)). (\<exists>i j. v = var_name i j r) \<and> x v = Fin 1}"
      unfolding 2 by blast
    finally have s: "lin_sum x (c_vars ?c) =
        Fin (2 * real (card {v \<in> set (lp_binaries (build_lp p rooms key)).
                               (\<exists>i j. v = var_name i j r) \<and> x v = Fin 1}))" .
    from a have "js_le (lin_sum x (c_vars ?c)) ?cap"
      by (simp add: satisfies_def 5)
    then show "js_le
           (Fin (2 * real (card {v \<in> set (lp_binaries (build_lp p rooms key)).
                                 (\<exists>i j. v = var_name i j r) \<and> x v = Fin 1})))
           ?cap"
      by (simp only: s)
  qed
  show ?thesis
    by (rule exI [of _ ?c]) (intro conjI 1 2 3 4 5 6)
qed

theorem room_capacity_constraint_witness:
  "0 < length example_rooms \<and>
   binary_on example_values (lp_binaries (build_lp example_preferences example_rooms example_key)) \<and>
   js_le
     (Fin (2 * real (card {v \<in> set (lp_binaries (build_lp example_preferences example_rooms example_key)).
                           (\<exists>i j. v = var_name i j 0) \<and> example_values v = Fin 1})))
     (to_number ((example_rooms ! 0) ''Capacity''))"
proof -
  let ?B = "lp_binaries (build_lp example_preferences example_rooms example_key)"
  have h: "0 < length example_rooms" by code_simp
  from room_capacity_constraint [OF h, of example_preferences example_key]
  obtain c where f: "filter (\<lambda>c'. c_name c' = ''room_'' @ show_nat 0)
          (lp_subjectTo (build_lp example_preferences example_rooms example_key)) = [c]"
    and imp: "\<forall>x. binary_on x ?B \<and> satisfies x c \<longrightarrow>
         js_le (Fin (2 * real (card {v \<in> set ?B. (\<exists>i j. v = var_name i j 0) \<and> x v = Fin 1})))
           (to_number ((example_rooms ! 0) ''Capacity''))"
    by (elim exE conjE)
  from f [unfolded example_room_0] have c: "c = \<lparr>c_name = ''room_0'',
       c_vars = [\<lparr>v_name = ''x_0_1_0'', v_coef = Fin 2\<rparr>, \<lparr>v_name = ''x_2_3_0'', v_coef = Fin 2\<rparr>],
       c_bnds = \<lparr>b_type = GLP_UP, b_ub = Fin 2, b_lb = Fin 0\<rparr>\<rparr>"
    by (simp only: list.inject simp_thms)
  have b: "binary_on example_values ?B"
    by (simp only: example_binaries example_values_binary)
  have s: "satisfies example_values c"
    by (simp only: c example_values_room_0)
  have "js_le
     (Fin (2 * real (card {v \<in> set ?B. (\<exists>i j. v = var_name i j 0) \<and> example_values v = Fin 1})))
     (to_number ((example_rooms ! 0) ''Capacity''))"
    by (rule imp [rule_format]) (rule conjI [OF b s])
  with h b show ?thesis by (intro conjI)
qed

end
